theory Spec2Isabelle
  imports Main "HOL-Library.Word" "HOL-Library.Product_Lexorder" "HOL-Library.Char_ord"
    "HOL-Library.List_Lexorder" "HOL-Library.Sublist"
begin

section \<open>The event log of the write-ahead log (part\_001)\<close>

text \<open>
  The Go types: \<open>uuid\<close> is \<open>uint32\<close>, a Lamport timestamp is \<open>int64\<close> (compared as a
  signed number), \<open>EventType\<close> is an enumeration over \<open>uint16\<close>, a note is a \<open>[]byte\<close>
  that may be \<open>nil\<close>.
\<close>

type_synonym uuid = "32 word"
type_synonym int64 = "64 word"
type_synonym bytes = "8 word list"

datatype EventType =
  NullEvent | AddEvent | UpdateEvent | MoveUpEvent | MoveDownEvent
  | ShowEvent | HideEvent | DeleteEvent

record LineFriends =
  IsProcessed :: bool
  Offset :: int
  Emails :: "string list"

record EventLog =
  UUID :: uuid
  LamportTimestamp :: int64
  EventType :: EventType
  ListItemKey :: string
  TargetListItemKey :: string
  Line :: string
  Note :: "bytes option"
  Friends :: LineFriends
  cachedKey :: string

subsection \<open>checkEquality\<close>

datatype equality = eventsEqual | leftEventOlder | rightEventOlder

definition checkEquality :: "EventLog \<Rightarrow> EventLog \<Rightarrow> equality" where
  "checkEquality event1 event2 =
     (if word_sless (LamportTimestamp event1) (LamportTimestamp event2) \<or>
         (LamportTimestamp event1 = LamportTimestamp event2 \<and> UUID event1 < UUID event2)
      then leftEventOlder
      else if word_sless (LamportTimestamp event2) (LamportTimestamp event1) \<or>
         (LamportTimestamp event2 = LamportTimestamp event1 \<and> UUID event2 < UUID event1)
      then rightEventOlder
      else eventsEqual)"

subsection \<open>merge\<close>

text \<open>
  The two-pointer loop of \<open>merge\<close>. The indices \<open>i\<close> and \<open>j\<close> of the source only ever
  read \<open>wal1[i]\<close> and \<open>wal2[j]\<close> and move forward, so the model carries the unread
  suffixes \<open>wal1[i:]\<close> and \<open>wal2[j:]\<close>; \<open>mergedEl\<close> is the slice built so far and
  \<open>lastEvent\<close> its last element. In the branch for equal events the source's inner test
  \<open>i < len(wal1)\<close> always holds (the branch is only reached with \<open>i \<noteq> len(wal1)\<close>), so
  the event of \<open>wal1\<close> is the one that is skipped.
\<close>

fun mergeLoop :: "EventLog list \<Rightarrow> EventLog list \<Rightarrow> EventLog list \<Rightarrow> EventLog list" where
  "mergeLoop [] [] mergedEl = mergedEl"
| "mergeLoop [] (y # ys) mergedEl =
     mergeLoop [] ys
       (if mergedEl = [] \<or> checkEquality y (last mergedEl) \<noteq> eventsEqual
        then mergedEl @ [y] else mergedEl)"
| "mergeLoop (x # xs) [] mergedEl =
     mergeLoop xs []
       (if mergedEl = [] \<or> checkEquality x (last mergedEl) \<noteq> eventsEqual
        then mergedEl @ [x] else mergedEl)"
| "mergeLoop (x # xs) (y # ys) mergedEl =
     (case checkEquality x y of
        leftEventOlder \<Rightarrow>
          mergeLoop xs (y # ys)
            (if mergedEl = [] \<or> checkEquality x (last mergedEl) \<noteq> eventsEqual
             then mergedEl @ [x] else mergedEl)
      | rightEventOlder \<Rightarrow>
          mergeLoop (x # xs) ys
            (if mergedEl = [] \<or> checkEquality y (last mergedEl) \<noteq> eventsEqual
             then mergedEl @ [y] else mergedEl)
      | eventsEqual \<Rightarrow> mergeLoop xs (y # ys) mergedEl)"

definition merge :: "EventLog list \<Rightarrow> EventLog list \<Rightarrow> EventLog list" where
  "merge wal1 wal2 =
     (if wal1 = [] \<and> wal2 = [] then []
      else if wal1 = [] then wal2
      else if wal2 = [] then wal1
      else if checkEquality (hd wal1) (last wal2) = rightEventOlder then wal2 @ wal1
      else if checkEquality (hd wal2) (last wal1) = rightEventOlder then wal1 @ wal2
      else mergeLoop wal1 wal2 [])"

text \<open>
  Two logs are equal in the sense of \<open>checkEquality\<close> when they have the same length and
  agree position by position on the pair (Lamport timestamp, replica id).
\<close>

definition logsEqual :: "EventLog list \<Rightarrow> EventLog list \<Rightarrow> bool" where
  "logsEqual = list_all2 (\<lambda>a b. checkEquality a b = eventsEqual)"

text \<open>A log is sorted and free of duplicates when every earlier event is strictly older.\<close>

definition sortedLog :: "EventLog list \<Rightarrow> bool" where
  "sortedLog = sorted_wrt (\<lambda>a b. checkEquality a b = leftEventOlder)"

section \<open>The projection: items, the repository and replay (part\_001)\<close>

text \<open>
  Items are heap objects linked by pointers (\<open>child\<close>, \<open>parent\<close>), and the same item is
  reached through the list, through \<open>listItemTracker\<close> and through the match list, so the
  model keeps an explicit store: an address is a natural number, \<open>heap\<close> maps an address
  to the item stored there, \<open>nextAddr\<close> is the first address not yet allocated, and a
  pointer is an \<open>addr option\<close> (\<open>None\<close> for \<open>nil\<close>). Every assignment of the source is
  one update of the store, in the source's order, reading from the store as it is then.
  The field \<open>Note\<close> of an item is called \<open>itemNote\<close> here (the event has a \<open>Note\<close> too).
\<close>

type_synonym addr = nat

record ListItem =
  key :: string
  rawLine :: string
  itemNote :: "bytes option"
  friends :: LineFriends
  localEmail :: string
  IsHidden :: bool
  isDeleted :: bool
  child :: "addr option"
  parent :: "addr option"
  matchChild :: "addr option"
  matchParent :: "addr option"

text \<open>
  A Go map that was never made is \<open>nil\<close>: reading it finds nothing, assigning to it
  panics. The two caches of processed events are therefore optional maps, \<open>None\<close> for
  \<open>nil\<close>.
\<close>

record DBListRepo =
  Root :: "addr option"
  heap :: "addr \<Rightarrow> ListItem"
  nextAddr :: addr
  matchListItems :: "addr list"
  listItemTracker :: "string \<rightharpoonup> addr"
  processedEventLogCache :: "string set option"
  listItemProcessedEventLogTypeCache :: "(EventType \<rightharpoonup> (string \<rightharpoonup> EventLog)) option"
  currentLamportTimestamp :: int64
  log :: "EventLog list"
  email :: string
  previousListItemKey :: string

datatype abort =
  NilMapAssignment
  | IndexOutOfRange
  | Fatal string
  | Diverges

definition zeroFriends :: LineFriends where
  "zeroFriends = \<lparr>IsProcessed = False, Offset = 0, Emails = []\<rparr>"

definition zeroItem :: ListItem where
  "zeroItem = \<lparr>key = [], rawLine = [], itemNote = None, friends = zeroFriends,
     localEmail = [], IsHidden = False, isDeleted = False, child = None, parent = None,
     matchChild = None, matchParent = None\<rparr>"

subsection \<open>The key of an event\<close>

fun digits :: "nat \<Rightarrow> string" where
  "digits n = (if n < 10 then [''0123456789'' ! n]
               else digits (n div 10) @ [''0123456789'' ! (n mod 10)])"

declare digits.simps [simp del]

definition Itoa :: "int \<Rightarrow> string" where
  "Itoa i = (if i < 0 then CHR ''-'' # digits (nat (- i)) else digits (nat i))"

definition eventKey :: "EventLog \<Rightarrow> string" where
  "eventKey e =
     (if cachedKey e = [] then Itoa (uint (UUID e)) @ '':'' @ Itoa (sint (LamportTimestamp e))
      else cachedKey e)"

subsection \<open>add, update, del, move, setVisibility\<close>

definition setChild :: "addr \<Rightarrow> addr option \<Rightarrow> DBListRepo \<Rightarrow> DBListRepo" where
  "setChild a v r = r\<lparr>heap := (heap r)(a := (heap r a)\<lparr>child := v\<rparr>)\<rparr>"

definition setParent :: "addr \<Rightarrow> addr option \<Rightarrow> DBListRepo \<Rightarrow> DBListRepo" where
  "setParent a v r = r\<lparr>heap := (heap r)(a := (heap r a)\<lparr>parent := v\<rparr>)\<rparr>"

definition add ::
  "string \<Rightarrow> string \<Rightarrow> LineFriends \<Rightarrow> bytes option \<Rightarrow> addr option \<Rightarrow> DBListRepo
     \<Rightarrow> addr \<times> DBListRepo" where
  "add k line fr note childItem r =
     (let newItem = nextAddr r;
          r1 = r\<lparr>heap := (heap r)(newItem :=
                  \<lparr>key = k, rawLine = line, itemNote = note, friends = fr,
                   localEmail = email r, IsHidden = False, isDeleted = False,
                   child = childItem, parent = None, matchChild = None, matchParent = None\<rparr>),
                nextAddr := Suc newItem\<rparr>
      in case childItem of
           None \<Rightarrow>
             (let oldRoot = Root r1;
                  r2 = r1\<lparr>Root := Some newItem\<rparr>
              in case oldRoot of
                   None \<Rightarrow> (newItem, r2)
                 | Some old \<Rightarrow> (newItem, setChild old (Some newItem) (setParent newItem (Some old) r2)))
         | Some c \<Rightarrow>
             (let r2 = (case parent (heap r1 c) of
                          None \<Rightarrow> r1
                        | Some p \<Rightarrow>
                            (let r1' = setChild p (Some newItem) r1
                             in setParent newItem (parent (heap r1' c)) r1'))
              in (newItem, setParent c (Some newItem) r2)))"

text \<open>
  \<open>update\<close> merges the e-mail addresses of the item and of the event through a Go map
  (which removes duplicates), leaves out the repository's own address and sorts the rest.
\<close>

definition update ::
  "addr \<Rightarrow> string \<Rightarrow> LineFriends \<Rightarrow> bytes option \<Rightarrow> DBListRepo \<Rightarrow> DBListRepo" where
  "update item line fr note r =
     (let it = heap r item;
          it1 = (if length line > 0
                 then it\<lparr>rawLine := line,
                        friends := \<lparr>IsProcessed = IsProcessed fr, Offset = Offset fr,
                          Emails = sort (remdups (filter (\<lambda>e. e \<noteq> email r)
                                     (Emails (friends it) @ Emails fr)))\<rparr>\<rparr>
                 else it\<lparr>itemNote := note\<rparr>)
      in r\<lparr>heap := (heap r)(item := it1\<lparr>isDeleted := False\<rparr>)\<rparr>)"

definition del :: "addr \<Rightarrow> DBListRepo \<Rightarrow> DBListRepo" where
  "del item r =
     (let r1 = r\<lparr>heap := (heap r)(item := (heap r item)\<lparr>isDeleted := True\<rparr>)\<rparr>;
          r2 = (case child (heap r1 item) of
                  Some c \<Rightarrow> setParent c (parent (heap r1 item)) r1
                | None \<Rightarrow> r1\<lparr>Root := parent (heap r1 item)\<rparr>)
      in case parent (heap r2 item) of
           Some p \<Rightarrow> setChild p (child (heap r2 item)) r2
         | None \<Rightarrow> r2)"

definition setVisibility :: "addr \<Rightarrow> bool \<Rightarrow> DBListRepo \<Rightarrow> DBListRepo" where
  "setVisibility item isVisible r =
     r\<lparr>heap := (heap r)(item := (heap r item)\<lparr>IsHidden := \<not> isVisible\<rparr>)\<rparr>"

definition move :: "addr \<Rightarrow> addr option \<Rightarrow> DBListRepo \<Rightarrow> addr \<times> DBListRepo" where
  "move item childItem r =
     (let r1 = del item r;
          isHidden = IsHidden (heap r1 item);
          (newItem, r2) = add (key (heap r1 item)) (rawLine (heap r1 item))
                            (friends (heap r1 item)) (itemNote (heap r1 item)) childItem r1
      in if isHidden then (newItem, setVisibility newItem False r2) else (newItem, r2))"

subsection \<open>processEventLog and Replay\<close>

text \<open>
  \<open>processEventLog\<close> returns the item and the repository, or the panic of an assignment
  to a \<open>nil\<close> map. A pointer to a deleted item is replaced by \<open>nil\<close> before the dispatch.
  \<open>e.key()\<close> stores the key in the (local copy of the) event, which is the copy that goes
  into the cache by type; \<open>int\<close> has 64 bits, so that \<open>int(e.UUID)\<close> is not negative.
  \<open>generateFriendChangeEvents\<close> is left out: it reads the item's line and writes only the
  friends map, the wal-file registries and \<open>friendsMostRecentChangeDT\<close>, none of which any
  function below reads.
\<close>

definition liveItem :: "DBListRepo \<Rightarrow> addr option \<Rightarrow> addr option" where
  "liveItem r p = (case p of None \<Rightarrow> None
                   | Some a \<Rightarrow> if isDeleted (heap r a) then None else Some a)"

definition trackItem :: "string \<Rightarrow> addr option \<Rightarrow> DBListRepo \<Rightarrow> DBListRepo" where
  "trackItem k item r =
     (case item of None \<Rightarrow> r
      | Some a \<Rightarrow> r\<lparr>listItemTracker := (listItemTracker r)(k \<mapsto> a)\<rparr>)"

definition dispatch ::
  "EventLog \<Rightarrow> addr option \<Rightarrow> addr option \<Rightarrow> DBListRepo \<Rightarrow> addr option \<times> DBListRepo" where
  "dispatch e item targetItem r =
     (case item of
        None \<Rightarrow>
          (if EventType e = AddEvent \<or> EventType e = UpdateEvent
           then (let (newItem, r1) = add (ListItemKey e) (Line e) (Friends e) (Note e) targetItem r
                 in (Some newItem, trackItem (ListItemKey e) (Some newItem) r1))
           else (None, r))
      | Some i \<Rightarrow>
          (case EventType e of
             AddEvent \<Rightarrow>
               (Some i, trackItem (ListItemKey e) (Some i)
                  (update i [] (Friends e) (Note e) (update i (Line e) (Friends e) (Note e) r)))
           | UpdateEvent \<Rightarrow>
               (Some i, trackItem (ListItemKey e) (Some i)
                  (update i (Line e) (Friends e) (Note e) r))
           | MoveDownEvent \<Rightarrow>
               (if targetItem = None then (Some i, r)
                else (let (newItem, r1) = move i targetItem r
                      in (Some newItem, trackItem (ListItemKey e) (Some newItem) r1)))
           | MoveUpEvent \<Rightarrow>
               (let (newItem, r1) = move i targetItem r
                in (Some newItem, trackItem (ListItemKey e) (Some newItem) r1))
           | ShowEvent \<Rightarrow>
               (Some i, trackItem (ListItemKey e) (Some i) (setVisibility i True r))
           | HideEvent \<Rightarrow>
               (Some i, trackItem (ListItemKey e) (Some i) (setVisibility i False r))
           | DeleteEvent \<Rightarrow> (Some i, trackItem (ListItemKey e) (Some i) (del i r))
           | NullEvent \<Rightarrow> (Some i, trackItem (ListItemKey e) (Some i) r)))"

definition alreadyProcessed :: "EventLog \<Rightarrow> DBListRepo \<Rightarrow> bool" where
  "alreadyProcessed e r =
     (case processedEventLogCache r of None \<Rightarrow> False | Some c \<Rightarrow> eventKey e \<in> c)"

definition cachedByType :: "EventLog \<Rightarrow> DBListRepo \<Rightarrow> EventLog option" where
  "cachedByType e r =
     (case listItemProcessedEventLogTypeCache r of
        None \<Rightarrow> None
      | Some tc \<Rightarrow> (case tc (EventType e) of None \<Rightarrow> None | Some m \<Rightarrow> m (ListItemKey e)))"

definition supersededByType :: "EventLog \<Rightarrow> DBListRepo \<Rightarrow> bool" where
  "supersededByType e r =
     (case cachedByType e r of
        None \<Rightarrow> False
      | Some ce \<Rightarrow> checkEquality ce e = rightEventOlder \<or> checkEquality ce e = eventsEqual)"

text \<open>
  The event enters the cache of its type (whose inner map is made when it is missing),
  and the clock moves up to the event's Lamport time when that is not less.
\<close>

definition noteEvent ::
  "EventLog \<Rightarrow> (EventType \<rightharpoonup> (string \<rightharpoonup> EventLog)) \<Rightarrow> DBListRepo \<Rightarrow> DBListRepo" where
  "noteEvent e tc r1 =
     (let m = (case tc (EventType e) of None \<Rightarrow> Map.empty | Some m \<Rightarrow> m);
          r2 = r1\<lparr>listItemProcessedEventLogTypeCache :=
                    Some (tc(EventType e \<mapsto> m(ListItemKey e \<mapsto> e)))\<rparr>
      in if word_sle (currentLamportTimestamp r2) (LamportTimestamp e)
         then r2\<lparr>currentLamportTimestamp := LamportTimestamp e\<rparr>
         else r2)"

definition processEventLog ::
  "EventLog \<Rightarrow> DBListRepo \<Rightarrow> abort + (addr option \<times> DBListRepo)" where
  "processEventLog e0 r =
     (let item = listItemTracker r (ListItemKey e0);
          targetItem = listItemTracker r (TargetListItemKey e0);
          e = e0\<lparr>cachedKey := eventKey e0\<rparr>
      in if alreadyProcessed e0 r then Inr (item, r)
         else
           (case processedEventLogCache r of
              None \<Rightarrow> Inl NilMapAssignment
            | Some c \<Rightarrow>
               (let r1 = r\<lparr>processedEventLogCache := Some (insert (eventKey e0) c)\<rparr>
                in if supersededByType e r1 then Inr (item, r1)
                   else
                     (case listItemProcessedEventLogTypeCache r1 of
                        None \<Rightarrow> Inl NilMapAssignment
                      | Some tc \<Rightarrow>
                         (let r3 = noteEvent e tc r1
                          in Inr (dispatch e (liveItem r3 item) (liveItem r3 targetItem) r3))))))"

fun replayEvents :: "EventLog list \<Rightarrow> DBListRepo \<Rightarrow> abort + DBListRepo" where
  "replayEvents [] r = Inr r"
| "replayEvents (e # es) r =
     (case processEventLog e r of
        Inl a \<Rightarrow> Inl a
      | Inr (item, r1) \<Rightarrow> replayEvents es r1)"

definition Replay :: "EventLog list \<Rightarrow> DBListRepo \<Rightarrow> abort + DBListRepo" where
  "Replay partialWal r =
     (if length partialWal = 0 then Inr r
      else (case replayEvents partialWal r of
              Inl a \<Rightarrow> Inl a
            | Inr r1 \<Rightarrow> Inr (r1\<lparr>log := merge (log r1) partialWal\<rparr>)))"

subsection \<open>Match\<close>

text \<open>
  \<open>Match\<close> is given in part\_000 for the earlier item type; the fields used are those of
  part\_001 (\<open>key\<close> for \<open>Key()\<close>, \<open>rawLine\<close> for \<open>Line\<close>). \<open>GetMatchPattern\<close> and \<open>isMatch\<close>
  are not among the sources: \<open>isMatch g line\<close> stands for the test of one search group
  against a line. The broadcast of a cursor move is left out (it needs \<open>r.web\<close>, which is
  \<open>nil\<close> wherever \<open>Match\<close> is called below). A loop of the source is a step function for
  one iteration and a recursion that repeats it; a loop that does not end has no result
  (\<open>None\<close>).
\<close>

datatype ('a, 's) iteration = Return 'a | Next 's

record matchLoopState =
  mCur :: addr
  mLastCur :: "addr option"
  mIdx :: int
  mMatchIdx :: "string \<rightharpoonup> int"
  mRes :: "ListItem list"
  mRepo :: DBListRepo

definition groupsMatch :: "'g list \<Rightarrow> ('g \<Rightarrow> string \<Rightarrow> bool) \<Rightarrow> string \<Rightarrow> ListItem \<Rightarrow> bool" where
  "groupsMatch keys isMatch curKey it =
     (keys = [] \<or> key it = curKey \<or> length (rawLine it) = 0
      \<or> list_all (\<lambda>g. isMatch g (rawLine it)) keys)"

definition matchStep ::
  "'g list \<Rightarrow> ('g \<Rightarrow> string \<Rightarrow> bool) \<Rightarrow> bool \<Rightarrow> string \<Rightarrow> int \<Rightarrow> int \<Rightarrow> matchLoopState
     \<Rightarrow> (ListItem list \<times> (string \<rightharpoonup> int) \<times> DBListRepo, matchLoopState) iteration" where
  "matchStep keys isMatch showHidden curKey offset limit s =
     (let c = mCur s;
          r0 = mRepo s;
          r1 = r0\<lparr>heap := (heap r0)(c := (heap r0 c)\<lparr>matchChild := None, matchParent := None\<rparr>)\<rparr>;
          matched = ((showHidden \<or> \<not> IsHidden (heap r1 c))
                     \<and> groupsMatch keys isMatch curKey (heap r1 c));
          taken = (matched \<and> mIdx s \<ge> offset);
          s1 = (if taken
                then (let r2 = r1\<lparr>matchListItems := matchListItems r1 @ [c]\<rparr>;
                          r3 = (case mLastCur s of
                                  None \<Rightarrow> r2
                                | Some l \<Rightarrow> r2\<lparr>heap := (heap r2)(l := (heap r2 l)\<lparr>matchParent := Some c\<rparr>)\<rparr>);
                          r4 = r3\<lparr>heap := (heap r3)(c := (heap r3 c)\<lparr>matchChild := mLastCur s\<rparr>)\<rparr>
                      in s\<lparr>mRes := mRes s @ [heap r1 c], mLastCur := Some c,
                           mMatchIdx := (mMatchIdx s)(key (heap r1 c) \<mapsto> mIdx s),
                           mRepo := r4\<rparr>)
                else s\<lparr>mRepo := r1\<rparr>);
          s2 = (if matched then s1\<lparr>mIdx := mIdx s1 + 1\<rparr> else s1)
      in case parent (heap (mRepo s2) c) of
           None \<Rightarrow> Return (mRes s2, mMatchIdx s2, mRepo s2)
         | Some p \<Rightarrow>
             if limit > 0 \<and> mIdx s2 = offset + limit
             then Return (mRes s2, mMatchIdx s2, mRepo s2)
             else Next (s2\<lparr>mCur := p\<rparr>))"

partial_function (option) matchLoop ::
  "(matchLoopState \<Rightarrow> (ListItem list \<times> (string \<rightharpoonup> int) \<times> DBListRepo, matchLoopState) iteration)
     \<Rightarrow> matchLoopState \<Rightarrow> (ListItem list \<times> (string \<rightharpoonup> int) \<times> DBListRepo) option" where
  "matchLoop step s = (case step s of Return x \<Rightarrow> Some x | Next s' \<Rightarrow> matchLoop step s')"

declare matchLoop.simps [code]

definition Match ::
  "'g list \<Rightarrow> ('g \<Rightarrow> string \<Rightarrow> bool) \<Rightarrow> bool \<Rightarrow> string \<Rightarrow> int \<Rightarrow> int \<Rightarrow> DBListRepo
     \<Rightarrow> ((ListItem list \<times> int \<times> string option) \<times> DBListRepo) option" where
  "Match keys isMatch showHidden curKey offset limit r =
     (if offset < 0 then Some (([], 0, Some ''offset must be >= 0''), r)
      else if limit < 0 then Some (([], 0, Some ''limit must be >= 0''), r)
      else
        (let r1 = r\<lparr>matchListItems := []\<rparr>
         in case Root r of
              None \<Rightarrow> Some (([], - 1, None), r1)
            | Some c \<Rightarrow>
                (case matchLoop (matchStep keys isMatch showHidden curKey offset limit)
                        \<lparr>mCur = c, mLastCur = None, mIdx = 0, mMatchIdx = Map.empty,
                         mRes = [], mRepo = r1\<lparr>previousListItemKey := curKey\<rparr>\<rparr> of
                   None \<Rightarrow> None
                 | Some (items, matchIdx, r2) \<Rightarrow>
                     Some ((items, (case matchIdx curKey of None \<Rightarrow> - 1 | Some p \<Rightarrow> p), None),
                           r2))))"

subsection \<open>areListItemsEqual, checkListItemPtrs, listsAreEquivalent\<close>

text \<open>\<open>string(a.Note)\<close>: a \<open>nil\<close> note and an empty note both give the empty string.\<close>

definition noteString :: "bytes option \<Rightarrow> bytes" where
  "noteString n = (case n of None \<Rightarrow> [] | Some b \<Rightarrow> b)"

definition deref :: "(addr \<Rightarrow> ListItem) \<Rightarrow> addr option \<Rightarrow> ListItem option" where
  "deref h p = map_option h p"

text \<open>
  The two items may live in different stores (the lists of two test repositories), so each
  side comes with its store; an item is passed as the object itself (\<open>None\<close> for \<open>nil\<close>).
\<close>

definition fieldsDiffer :: "ListItem \<Rightarrow> ListItem \<Rightarrow> bool" where
  "fieldsDiffer a b =
     (rawLine a \<noteq> rawLine b \<or> noteString (itemNote a) \<noteq> noteString (itemNote b)
      \<or> IsHidden a \<noteq> IsHidden b \<or> key a \<noteq> key b)"

definition areListItemsEqualNoPtrs :: "ListItem option \<Rightarrow> ListItem option \<Rightarrow> bool" where
  "areListItemsEqualNoPtrs a b =
     (case (a, b) of
        (None, None) \<Rightarrow> True
      | (None, Some y) \<Rightarrow> False
      | (Some x, None) \<Rightarrow> False
      | (Some x, Some y) \<Rightarrow> \<not> fieldsDiffer x y)"

definition areListItemsEqual ::
  "(addr \<Rightarrow> ListItem) \<Rightarrow> (addr \<Rightarrow> ListItem) \<Rightarrow> ListItem option \<Rightarrow> ListItem option \<Rightarrow> bool
     \<Rightarrow> bool" where
  "areListItemsEqual hA hB a b checkPointers =
     (case (a, b) of
        (None, None) \<Rightarrow> True
      | (None, Some y) \<Rightarrow> False
      | (Some x, None) \<Rightarrow> False
      | (Some x, Some y) \<Rightarrow>
          if fieldsDiffer x y then False
          else if checkPointers
          then \<not> (\<not> areListItemsEqualNoPtrs (deref hA (child x)) (deref hB (child y))
                  \<or> \<not> areListItemsEqualNoPtrs (deref hA (parent x)) (deref hB (parent y))
                  \<or> \<not> areListItemsEqualNoPtrs (deref hA (matchChild x)) (deref hB (matchChild y))
                  \<or> \<not> areListItemsEqualNoPtrs (deref hA (matchParent x)) (deref hB (matchParent y)))
          else True)"

record ptrsLoopState =
  pListItem :: addr
  pIdx :: nat
  pProcessed :: "string set"
  pPrev :: "addr option"

definition ptrsStep ::
  "(addr \<Rightarrow> ListItem) \<Rightarrow> ListItem list \<Rightarrow> ptrsLoopState
     \<Rightarrow> (abort + string option, ptrsLoopState) iteration" where
  "ptrsStep h matchItems s =
     (case parent (h (pListItem s)) of
        None \<Rightarrow>
          if int (pIdx s) + 1 < int (length matchItems)
          then Return (Inr (Some ''list integrity error: orphaned items in match set''))
          else Return (Inr None)
      | Some p \<Rightarrow>
          if child (h (pListItem s)) \<noteq> pPrev s
          then Return (Inr (Some (''list integrity error: listItem '' @ key (h (pListItem s)) @
                              '' child ptr does not point to the expected item'')))
          else if \<not> pIdx s < length matchItems then Return (Inl IndexOutOfRange)
          else if \<not> areListItemsEqual h h (Some (h (pListItem s))) (Some (matchItems ! pIdx s)) False
          then Return (Inr (Some (''list integrity error: listItem '' @ key (h (pListItem s)) @
                              '' does not match the expected position in the match list'')))
          else if key (h (pListItem s)) \<in> pProcessed s
          then Return (Inr (Some (''list integrity error: listItem '' @ key (h (pListItem s)) @
                              '' has appeared twice'')))
          else Next \<lparr>pListItem = p, pIdx = pIdx s + 1,
                      pProcessed = insert (key (h (pListItem s))) (pProcessed s),
                      pPrev = Some (pListItem s)\<rparr>)"

partial_function (option) ptrsLoop ::
  "(ptrsLoopState \<Rightarrow> (abort + string option, ptrsLoopState) iteration)
     \<Rightarrow> ptrsLoopState \<Rightarrow> (abort + string option) option" where
  "ptrsLoop step s = (case step s of Return x \<Rightarrow> Some x | Next s' \<Rightarrow> ptrsLoop step s')"

declare ptrsLoop.simps [code]

definition checkListItemPtrs ::
  "(addr \<Rightarrow> ListItem) \<Rightarrow> addr option \<Rightarrow> ListItem list \<Rightarrow> (abort + string option) option" where
  "checkListItemPtrs h root matchItems =
     (case root of
        None \<Rightarrow> Some (Inr None)
      | Some a \<Rightarrow>
          if child (h a) \<noteq> None
          then Some (Inr (Some ''list integrity error: root has a child pointer''))
          else ptrsLoop (ptrsStep h matchItems)
                 \<lparr>pListItem = a, pIdx = 0, pProcessed = {}, pPrev = None\<rparr>)"

definition equivStep ::
  "(addr \<Rightarrow> ListItem) \<Rightarrow> (addr \<Rightarrow> ListItem) \<Rightarrow> addr \<times> addr \<Rightarrow> (bool, addr \<times> addr) iteration" where
  "equivStep hA hB s =
     (case (parent (hA (fst s)), parent (hB (snd s))) of
        (Some pA, Some pB) \<Rightarrow>
          if \<not> areListItemsEqual hA hB (Some (hA pA)) (Some (hB pB)) True then Return False
          else Next (pA, pB)
      | _ \<Rightarrow> Return (areListItemsEqual hA hB (Some (hA (fst s))) (Some (hB (snd s))) True))"

partial_function (option) equivLoop ::
  "(addr \<times> addr \<Rightarrow> (bool, addr \<times> addr) iteration) \<Rightarrow> addr \<times> addr \<Rightarrow> bool option" where
  "equivLoop step s = (case step s of Return x \<Rightarrow> Some x | Next s' \<Rightarrow> equivLoop step s')"

declare equivLoop.simps [code]

definition listsAreEquivalent ::
  "(addr \<Rightarrow> ListItem) \<Rightarrow> (addr \<Rightarrow> ListItem) \<Rightarrow> addr option \<Rightarrow> addr option \<Rightarrow> bool option" where
  "listsAreEquivalent hA hB ptrA ptrB =
     (if (ptrA \<noteq> None \<and> ptrB = None) \<or> (ptrA = None \<and> ptrB \<noteq> None) then Some False
      else if \<not> areListItemsEqual hA hB (deref hA ptrA) (deref hB ptrB) True then Some False
      else (case (ptrA, ptrB) of
              (Some a, Some b) \<Rightarrow> equivLoop (equivStep hA hB) (a, b)
            | _ \<Rightarrow> Some True))"

subsection \<open>checkWalIntegrity\<close>

text \<open>
  The test repository is built by a composite literal that names neither
  \<open>processedEventLogCache\<close> nor \<open>listItemProcessedEventLogTypeCache\<close>: both are \<open>nil\<close>
  maps. The result carries the test repository next to the root, since the root is a
  pointer into that repository's store. The body of \<open>checkWalIntegrity\<close> is
  \<open>checkIntegrityFrom\<close>, which takes the repository to replay into as an argument, so that
  the same check can be run from a repository whose caches exist.
\<close>

definition testRepo :: DBListRepo where
  "testRepo = \<lparr>Root = None, heap = (\<lambda>a. zeroItem), nextAddr = 0, matchListItems = [],
     listItemTracker = Map.empty, processedEventLogCache = None,
     listItemProcessedEventLogTypeCache = None, currentLamportTimestamp = 0, log = [],
     email = [], previousListItemKey = []\<rparr>"

definition noGroupMatch :: "unit \<Rightarrow> string \<Rightarrow> bool" where
  "noGroupMatch g line = True"

definition checkIntegrityFrom ::
  "DBListRepo \<Rightarrow> EventLog list
     \<Rightarrow> abort + (addr option \<times> DBListRepo \<times> ListItem list \<times> string option)" where
  "checkIntegrityFrom repo0 wal =
     (case Replay wal repo0 of
        Inl a \<Rightarrow> Inl a
      | Inr r1 \<Rightarrow>
          (case Match [] noGroupMatch True [] 0 0 r1 of
             None \<Rightarrow> Inl Diverges
           | Some ((matchItems, newPos, err), r2) \<Rightarrow>
               if err \<noteq> None
               then Inr (None, r2, [],
                      Some ''failed to generate match items for list integrity check'')
               else (case checkListItemPtrs (heap r2) (Root r2) matchItems of
                       None \<Rightarrow> Inl Diverges
                     | Some (Inl a) \<Rightarrow> Inl a
                     | Some (Inr (Some err)) \<Rightarrow> Inr (None, r2, matchItems, Some err)
                     | Some (Inr None) \<Rightarrow> Inr (Root r2, r2, matchItems, None))))"

definition checkWalIntegrity ::
  "EventLog list \<Rightarrow> abort + (addr option \<times> DBListRepo \<times> ListItem list \<times> string option)" where
  "checkWalIntegrity wal = checkIntegrityFrom testRepo wal"

subsection \<open>recoverWal\<close>

definition ackMatches ::
  "ListItem list \<Rightarrow> (string \<rightharpoonup> ListItem) \<times> string list" where
  "ackMatches matches =
     foldl (\<lambda>(acknowledgedItems, listOrder) item.
              (acknowledgedItems(key item \<mapsto> item),
               if acknowledgedItems (key item) = None then listOrder @ [key item] else listOrder))
       (Map.empty, []) matches"

definition ackEvent :: "(string \<rightharpoonup> ListItem) \<Rightarrow> EventLog \<Rightarrow> (string \<rightharpoonup> ListItem)" where
  "ackEvent acknowledgedItems e =
     (let found = acknowledgedItems (ListItemKey e)
      in if EventType e = AddEvent \<or> EventType e = UpdateEvent
         then acknowledgedItems(ListItemKey e \<mapsto>
                (case found of
                   None \<Rightarrow> zeroItem\<lparr>rawLine := Line e, itemNote := Note e, key := ListItemKey e\<rparr>
                 | Some item \<Rightarrow>
                     if EventType e = AddEvent
                     then item\<lparr>rawLine := Line e, itemNote := Note e\<rparr>
                     else if Note e \<noteq> None then item\<lparr>itemNote := Note e\<rparr>
                     else item\<lparr>rawLine := Line e\<rparr>))
         else if EventType e = HideEvent
         then (case found of None \<Rightarrow> acknowledgedItems
               | Some item \<Rightarrow> acknowledgedItems(ListItemKey e \<mapsto> item\<lparr>IsHidden := True\<rparr>))
         else if EventType e = ShowEvent
         then (case found of None \<Rightarrow> acknowledgedItems
               | Some item \<Rightarrow> acknowledgedItems(ListItemKey e \<mapsto> item\<lparr>IsHidden := False\<rparr>))
         else if EventType e = DeleteEvent
         then acknowledgedItems(ListItemKey e := None)
         else acknowledgedItems)"

definition zeroEvent :: EventLog where
  "zeroEvent = \<lparr>UUID = 0, LamportTimestamp = 0, EventType = NullEvent, ListItemKey = [],
     TargetListItemKey = [], Line = [], Note = None, Friends = zeroFriends, cachedKey = []\<rparr>"

text \<open>
  The last loop of \<open>recoverWal\<close> runs over \<open>listOrder\<close> from its last key to its first; a key
  that is no longer in the map gives the zero item. Only the \<open>Hide\<close> events take a Lamport
  timestamp from the repository's clock.
\<close>

fun recoverEmit ::
  "(string \<rightharpoonup> ListItem) \<Rightarrow> string list \<Rightarrow> EventLog list \<Rightarrow> DBListRepo
     \<Rightarrow> EventLog list \<times> DBListRepo" where
  "recoverEmit acknowledgedItems [] newWal r = (newWal, r)"
| "recoverEmit acknowledgedItems (k # ks) newWal r =
     (let item = (case acknowledgedItems k of None \<Rightarrow> zeroItem | Some it \<Rightarrow> it);
          newWal1 = newWal @ [zeroEvent\<lparr>EventType := AddEvent, ListItemKey := key item,
                                Line := rawLine item, Note := itemNote item\<rparr>]
      in if IsHidden item
         then (let r1 = r\<lparr>currentLamportTimestamp := currentLamportTimestamp r + 1\<rparr>
               in recoverEmit acknowledgedItems ks
                    (newWal1 @ [zeroEvent\<lparr>EventType := HideEvent,
                                  LamportTimestamp := currentLamportTimestamp r1,
                                  ListItemKey := key item\<rparr>]) r1)
         else recoverEmit acknowledgedItems ks newWal1 r)"

definition recoverWal ::
  "EventLog list \<Rightarrow> ListItem list \<Rightarrow> DBListRepo \<Rightarrow> EventLog list \<times> DBListRepo" where
  "recoverWal wal matches r =
     (let (acknowledgedItems0, listOrder) = ackMatches matches;
          acknowledgedItems = foldl ackEvent acknowledgedItems0 wal
      in recoverEmit acknowledgedItems (rev listOrder) [] r)"

subsection \<open>compact\<close>

text \<open>
  \<open>sort.Slice\<close> with the order of \<open>checkEquality\<close>. The result is the sorted
  permutation of the log; \<open>sortWal\<close> sorts by insertion (an element moves left while it is
  strictly less than its predecessor), as Go does on a short slice, which keeps events
  that compare equal in their order. On a longer slice Go's algorithm may order such
  events differently.
\<close>

fun insertEvent :: "EventLog \<Rightarrow> EventLog list \<Rightarrow> EventLog list" where
  "insertEvent e [] = [e]"
| "insertEvent e (x # xs) =
     (if checkEquality e x = leftEventOlder then e # x # xs else x # insertEvent e xs)"

definition sortWal :: "EventLog list \<Rightarrow> EventLog list" where
  "sortWal wal = foldl (\<lambda>sorted e. insertEvent e sorted) [] wal"

text \<open>
  The sweep from the newest event to the oldest; \<open>compactedWal\<close> is in the order of the
  sweep and is reversed at the end.
\<close>

fun sweep ::
  "EventLog list \<Rightarrow> string set \<Rightarrow> string set \<Rightarrow> EventLog list \<Rightarrow> EventLog list" where
  "sweep [] updateWithNote updateWithLine compactedWal = compactedWal"
| "sweep (e # es) updateWithNote updateWithLine compactedWal =
     (if EventType e = UpdateEvent
      then (if length (Line e) > 0
            then (if ListItemKey e \<in> updateWithLine
                  then sweep es updateWithNote updateWithLine compactedWal
                  else sweep es updateWithNote (insert (ListItemKey e) updateWithLine)
                         (compactedWal @ [e]))
            else (if ListItemKey e \<in> updateWithNote
                  then sweep es updateWithNote updateWithLine compactedWal
                  else sweep es (insert (ListItemKey e) updateWithNote) updateWithLine
                         (compactedWal @ [e])))
      else sweep es updateWithNote updateWithLine (compactedWal @ [e]))"

datatype walError = errWalIntregrity

definition compact ::
  "EventLog list \<Rightarrow> DBListRepo \<Rightarrow> abort + (EventLog list \<times> walError option \<times> DBListRepo)" where
  "compact wal0 r =
     (if length wal0 = 0 then Inr ([], None, r)
      else
        (let wal = sortWal wal0
         in case checkWalIntegrity wal of
              Inl a \<Rightarrow> Inl a
            | Inr (testRootA, repoA, matchItemsA, Some err) \<Rightarrow>
                (let (wal1, r1) = recoverWal wal matchItemsA r
                 in case checkWalIntegrity wal1 of
                      Inl a \<Rightarrow> Inl a
                    | Inr (testRootA1, repoA1, matchItemsA1, Some err1) \<Rightarrow>
                        Inl (Fatal ''wal recovery failed!'')
                    | Inr (testRootA1, repoA1, matchItemsA1, None) \<Rightarrow>
                        Inr (wal1, Some errWalIntregrity, r1))
            | Inr (testRootA, repoA, matchItemsA, None) \<Rightarrow>
                (let compactedWal = rev (sweep (rev wal) {} {} [])
                 in case checkWalIntegrity compactedWal of
                      Inl a \<Rightarrow> Inl a
                    | Inr (testRootB, repoB, matchItemsB, Some err) \<Rightarrow>
                        Inl (Fatal ''`compact` caused wal to lose integrity'')
                    | Inr (testRootB, repoB, matchItemsB, None) \<Rightarrow>
                        (case listsAreEquivalent (heap repoA) (heap repoB) testRootA testRootB of
                           None \<Rightarrow> Inl Diverges
                         | Some False \<Rightarrow>
                             Inl (Fatal ''`compact` generated inconsistent results and things blew up!'')
                         | Some True \<Rightarrow> Inr (compactedWal, None, r)))))"

subsection \<open>A repository before any event\<close>

text \<open>
  Modelled from the spec: the constructor of the repository of part\_001 is not among the
  sources (part\_000 has the one of the earlier revision, which makes every map it owns).
  The index and the caches are "created empty", the list is empty and the clock is 0.
\<close>

definition newRepo :: DBListRepo where
  "newRepo = testRepo\<lparr>processedEventLogCache := Some {},
                      listItemProcessedEventLogTypeCache := Some Map.empty\<rparr>"

text \<open>
  The list as a reader sees it: every item from the head, hidden ones included, as
  \<open>Match\<close> with no search group returns it, reduced to key, line, note and hidden flag.
\<close>

definition itemView :: "ListItem \<Rightarrow> string \<times> string \<times> bytes option \<times> bool" where
  "itemView it = (key it, rawLine it, itemNote it, IsHidden it)"

definition projection :: "DBListRepo \<Rightarrow> (string \<times> string \<times> bytes option \<times> bool) list option" where
  "projection r =
     (case Match [] noGroupMatch True [] 0 0 r of
        None \<Rightarrow> None
      | Some ((items, newPos, err), r1) \<Rightarrow> Some (map itemView items))"

definition replayList ::
  "EventLog list \<Rightarrow> DBListRepo \<Rightarrow> abort + (string \<times> string \<times> bytes option \<times> bool) list" where
  "replayList wal r =
     (case Replay wal r of
        Inl a \<Rightarrow> Inl a
      | Inr r1 \<Rightarrow> (case projection r1 of None \<Rightarrow> Inl Diverges | Some l \<Rightarrow> Inr l))"

text \<open>The Lamport clock after one event.\<close>

definition clockAfter :: "EventLog \<Rightarrow> DBListRepo \<Rightarrow> abort + int64" where
  "clockAfter e r =
     (case processEventLog e r of
        Inl a \<Rightarrow> Inl a
      | Inr (item, r1) \<Rightarrow> Inr (currentLamportTimestamp r1))"

section \<open>The mutation API (part\_000)\<close>

text \<open>
  part\_000 is the list API of the earlier revision: an item is identified by
  \<open>originUUID\<close> and \<open>creationTime\<close>, an event carries them instead of keys. Its names
  carry a \<open>0\<close> where they would clash with those of part\_001. \<open>idx\<close> is a Go \<open>int\<close>.
  A value sent on \<open>eventsChan\<close> is appended to the list of the values sent.
\<close>

record ListItem0 =
  itemLine0 :: string
  itemNote0 :: "bytes option"
  IsHidden0 :: bool
  originUUID :: uuid
  creationTime :: int64
  child0 :: "addr option"
  parent0 :: "addr option"
  matchChild0 :: "addr option"
  matchParent0 :: "addr option"

record EventLog0 =
  EventType0 :: EventType
  UUID0 :: uuid
  TargetUUID0 :: uuid
  UnixNanoTime0 :: int64
  ListItemCreationTime0 :: int64
  TargetListItemCreationTime0 :: int64
  Line0 :: string
  Note0 :: "bytes option"

text \<open>The nine arguments of a call of \<open>addUndoLog\<close>, in their order.\<close>

record undoLogCall =
  undoEventType :: EventType
  undoCreationTime :: int64
  undoTargetCreationTime :: int64
  undoOriginUUID :: uuid
  undoTargetUUID :: uuid
  oldLine :: string
  oldNote :: "bytes option"
  newLine :: string
  newNote :: "bytes option"

record 'u DBListRepo0 =
  Root0 :: "addr option"
  heap0 :: "addr \<Rightarrow> ListItem0"
  matchListItems0 :: "addr list"
  listItemTracker0 :: "string \<rightharpoonup> addr"
  uuid0 :: uuid
  log0 :: "EventLog0 list"
  eventsChan0 :: "EventLog0 list"
  eventLogger0 :: 'u

datatype fault = OutOfBounds | NilPointerDereference

text \<open>
  \<open>CallFunctionForEventLog\<close> and \<open>addUndoLog\<close> are called by part\_000 and defined
  elsewhere: they are parameters. \<open>CallFunctionForEventLog\<close> applies an event to the
  projection ("\<open>replay\<close> applies each event to (root, index)"): \<open>cfel root el (h, tracker)\<close>
  returns the new root, the item and the error, and the items and the key index as it
  leaves them. \<open>aul call u\<close> is the undo log after a call of \<open>addUndoLog\<close>.
\<close>

type_synonym callFunction =
  "addr option \<Rightarrow> EventLog0 \<Rightarrow> (addr \<Rightarrow> ListItem0) \<times> (string \<rightharpoonup> addr)
     \<Rightarrow> (addr option \<times> addr option \<times> string option) \<times> ((addr \<Rightarrow> ListItem0) \<times> (string \<rightharpoonup> addr))"

type_synonym 'u undoLogger = "undoLogCall \<Rightarrow> 'u \<Rightarrow> 'u"

definition Key0 :: "ListItem0 \<Rightarrow> string" where
  "Key0 i = Itoa (uint (originUUID i)) @ '':'' @ Itoa (sint (creationTime i))"

definition processEventLog0 ::
  "callFunction \<Rightarrow> int64 \<Rightarrow> EventType \<Rightarrow> int64 \<Rightarrow> int64 \<Rightarrow> string \<Rightarrow> bytes option \<Rightarrow> uuid
     \<Rightarrow> uuid \<Rightarrow> 'u DBListRepo0 \<Rightarrow> (addr option \<times> string option) \<times> 'u DBListRepo0" where
  "processEventLog0 cfel now e creationTime' targetCreationTime newLine' newNote' originUUID'
       targetUUID r =
     (let el = \<lparr>EventType0 = e, UUID0 = originUUID', TargetUUID0 = targetUUID,
                 UnixNanoTime0 = now, ListItemCreationTime0 = creationTime',
                 TargetListItemCreationTime0 = targetCreationTime, Line0 = newLine',
                 Note0 = newNote'\<rparr>;
          elCopy = el;
          r1 = r\<lparr>eventsChan0 := eventsChan0 r @ [elCopy]\<rparr>;
          r2 = r1\<lparr>log0 := log0 r1 @ [el]\<rparr>;
          ((root, item, err), (h, tracker)) = cfel (Root0 r2) el (heap0 r2, listItemTracker0 r2)
      in ((item, err), r2\<lparr>heap0 := h, listItemTracker0 := tracker, Root0 := root\<rparr>))"

definition addUndoLog ::
  "'u undoLogger \<Rightarrow> EventType \<Rightarrow> int64 \<Rightarrow> int64 \<Rightarrow> uuid \<Rightarrow> uuid \<Rightarrow> string \<Rightarrow> bytes option
     \<Rightarrow> string \<Rightarrow> bytes option \<Rightarrow> 'u DBListRepo0 \<Rightarrow> 'u DBListRepo0" where
  "addUndoLog aul e ct tct ou tu ol on nl nn r =
     r\<lparr>eventLogger0 := aul \<lparr>undoEventType = e, undoCreationTime = ct,
                            undoTargetCreationTime = tct, undoOriginUUID = ou,
                            undoTargetUUID = tu, oldLine = ol, oldNote = on, newLine = nl,
                            newNote = nn\<rparr> (eventLogger0 r)\<rparr>"

definition Add ::
  "callFunction \<Rightarrow> 'u undoLogger \<Rightarrow> int64 \<Rightarrow> int64 \<Rightarrow> string \<Rightarrow> bytes option \<Rightarrow> int
     \<Rightarrow> 'u DBListRepo0 \<Rightarrow> (fault + string) \<times> 'u DBListRepo0" where
  "Add cfel aul now t line note idx r =
     (if idx < 0 \<or> idx > int (length (matchListItems0 r)) then (Inl OutOfBounds, r)
      else
        (let (childCreationTime, childUUID) =
               (if idx > 0
                then (let childItem = heap0 r (matchListItems0 r ! nat (idx - 1))
                      in (creationTime childItem, originUUID childItem))
                else (0, 0));
             ((newItem, err), r1) =
               processEventLog0 cfel t AddEvent now childCreationTime line note (uuid0 r)
                 childUUID r;
             r2 = addUndoLog aul AddEvent now childCreationTime (uuid0 r1) childUUID line note
                    line note r1
         in case newItem of
              None \<Rightarrow> (Inl NilPointerDereference, r2)
            | Some a \<Rightarrow> (Inr (Key0 (heap0 r2 a)), r2)))"

definition Update ::
  "callFunction \<Rightarrow> 'u undoLogger \<Rightarrow> int64 \<Rightarrow> string \<Rightarrow> bytes option \<Rightarrow> int
     \<Rightarrow> 'u DBListRepo0 \<Rightarrow> (fault + unit) \<times> 'u DBListRepo0" where
  "Update cfel aul t line note idx r =
     (if idx < 0 \<or> idx \<ge> int (length (matchListItems0 r)) then (Inl OutOfBounds, r)
      else
        (let listItem = matchListItems0 r ! nat idx;
             (childCreationTime, childUUID) =
               (case child0 (heap0 r listItem) of
                  None \<Rightarrow> (0, 0)
                | Some c \<Rightarrow> (creationTime (heap0 r c), originUUID (heap0 r c)));
             it = heap0 r listItem;
             r1 = addUndoLog aul UpdateEvent (creationTime it) 0 (originUUID it) (originUUID it)
                    (itemLine0 it) (itemNote0 it) line note r;
             it1 = heap0 r1 listItem;
             (res, r2) = processEventLog0 cfel t UpdateEvent (creationTime it1) childCreationTime
                           line note (originUUID it1) childUUID r1
         in (Inr (), r2)))"

definition Delete ::
  "callFunction \<Rightarrow> 'u undoLogger \<Rightarrow> int64 \<Rightarrow> int \<Rightarrow> 'u DBListRepo0
     \<Rightarrow> (fault + string) \<times> 'u DBListRepo0" where
  "Delete cfel aul t idx r =
     (if idx < 0 \<or> idx \<ge> int (length (matchListItems0 r)) then (Inl OutOfBounds, r)
      else
        (let listItem = matchListItems0 r ! nat idx;
             (targetCreationTime, targetUUID) =
               (case child0 (heap0 r listItem) of
                  None \<Rightarrow> (0, 0)
                | Some c \<Rightarrow> (creationTime (heap0 r c), originUUID (heap0 r c)));
             (res, r1) = processEventLog0 cfel t DeleteEvent (creationTime (heap0 r listItem)) 0
                           [] None (originUUID (heap0 r listItem)) 0 r;
             it = heap0 r1 listItem;
             r2 = addUndoLog aul DeleteEvent (creationTime it) targetCreationTime (originUUID it)
                    targetUUID (itemLine0 it) (itemNote0 it) (itemLine0 it) (itemNote0 it) r1;
             k = (case matchChild0 (heap0 r2 listItem) of
                    None \<Rightarrow> []
                  | Some mc \<Rightarrow> Key0 (heap0 r2 mc))
         in (Inr k, r2)))"

definition MoveUp ::
  "callFunction \<Rightarrow> 'u undoLogger \<Rightarrow> int64 \<Rightarrow> int \<Rightarrow> 'u DBListRepo0
     \<Rightarrow> (fault + unit) \<times> 'u DBListRepo0" where
  "MoveUp cfel aul t idx r =
     (if idx < 0 \<or> idx \<ge> int (length (matchListItems0 r)) then (Inl OutOfBounds, r)
      else
        (let listItem = matchListItems0 r ! nat idx;
             (targetCreationTime, targetUUID) =
               (case matchChild0 (heap0 r listItem) of
                  None \<Rightarrow> (0, 0)
                | Some mc \<Rightarrow>
                    (case child0 (heap0 r mc) of
                       None \<Rightarrow> (0, 0)
                     | Some c \<Rightarrow> (creationTime (heap0 r c), originUUID (heap0 r c))));
             (res, r1) = processEventLog0 cfel t MoveUpEvent (creationTime (heap0 r listItem))
                           targetCreationTime [] None (originUUID (heap0 r listItem))
                           targetUUID r;
             it = heap0 r1 listItem;
             r2 = (case matchChild0 it of
                     None \<Rightarrow> r1
                   | Some mc \<Rightarrow>
                       if creationTime (heap0 r1 mc) \<noteq> 0
                       then addUndoLog aul MoveUpEvent (creationTime it) targetCreationTime
                              (originUUID it) targetUUID [] None [] None r1
                       else r1)
         in (Inr (), r2)))"

definition MoveDown ::
  "callFunction \<Rightarrow> 'u undoLogger \<Rightarrow> int64 \<Rightarrow> int \<Rightarrow> 'u DBListRepo0
     \<Rightarrow> (fault + unit) \<times> 'u DBListRepo0" where
  "MoveDown cfel aul t idx r =
     (if idx < 0 \<or> idx \<ge> int (length (matchListItems0 r)) then (Inl OutOfBounds, r)
      else
        (let listItem = matchListItems0 r ! nat idx;
             (targetCreationTime, targetUUID) =
               (case matchParent0 (heap0 r listItem) of
                  None \<Rightarrow> (0, 0)
                | Some mp \<Rightarrow> (creationTime (heap0 r mp), originUUID (heap0 r mp)));
             (res, r1) = processEventLog0 cfel t MoveDownEvent (creationTime (heap0 r listItem))
                           targetCreationTime [] None (originUUID (heap0 r listItem))
                           targetUUID r;
             it = heap0 r1 listItem;
             r2 = (case matchParent0 it of
                     None \<Rightarrow> r1
                   | Some mp \<Rightarrow>
                       if creationTime (heap0 r1 mp) \<noteq> 0
                       then addUndoLog aul MoveDownEvent (creationTime it) targetCreationTime
                              (originUUID it) targetUUID [] None [] None r1
                       else r1)
         in (Inr (), r2)))"

definition ToggleVisibility ::
  "callFunction \<Rightarrow> 'u undoLogger \<Rightarrow> int64 \<Rightarrow> int \<Rightarrow> 'u DBListRepo0
     \<Rightarrow> (fault + string) \<times> 'u DBListRepo0" where
  "ToggleVisibility cfel aul t idx r =
     (if idx < 0 \<or> idx \<ge> int (length (matchListItems0 r)) then (Inl OutOfBounds, r)
      else
        (let listItem = matchListItems0 r ! nat idx;
             it = heap0 r listItem;
             (evType, itemKey, r1) =
               (if IsHidden0 it
                then (ShowEvent, Key0 it,
                      addUndoLog aul ShowEvent (creationTime it) 0 (originUUID it) (originUUID it)
                        [] None [] None r)
                else (HideEvent,
                      (case matchParent0 it of
                         Some mp \<Rightarrow> Key0 (heap0 r mp)
                       | None \<Rightarrow>
                           (case matchChild0 it of
                              Some mc \<Rightarrow> Key0 (heap0 r mc)
                            | None \<Rightarrow> [])),
                      addUndoLog aul HideEvent (creationTime it) 0 (originUUID it) (originUUID it)
                        [] None [] None r));
             (res, r2) = processEventLog0 cfel t evType (creationTime (heap0 r1 listItem)) 0 []
                           None (originUUID (heap0 r1 listItem)) 0 r1
         in (Inr itemKey, r2)))"

section \<open>The blob codec: buildByteWal and buildFromFile (part\_001)\<close>

text \<open>
  \<open>buildByteWal\<close> writes the schema id in two little-endian bytes, encodes the log with
  \<open>encoding/gob\<close> into a buffer of its own, and writes the gzip of that buffer behind the
  schema id. \<open>buildFromFile\<close> reads the schema id, hands the rest to a goroutine that
  decompresses it into a pipe, and decodes the log from the pipe with the decoder of the schema.
  Goroutine, pipe and error channel only move the decompressed bytes from the one to the other,
  so the model passes the byte list on.

  The two libraries are not code of this repository. gob is modelled from the wire format that
  the documentation of the package \<open>encoding/gob\<close> gives (its part on the encoding and the
  grammar of a stream). gzip is a pair of functions, a parameter of the model.
\<close>

subsection \<open>gob: unsigned and signed integers\<close>

text \<open>
  Modelled from the documentation of \<open>encoding/gob\<close>: an unsigned integer below 128 is sent
  as one byte with that value, any other one as its minimal big-endian bytes behind one byte
  that holds their number, negated (256 is sent as FE 01 00). Go's \<open>uint\<close> has 64 bits, so a
  reader refuses a count above 8. A signed integer \<open>i\<close> is sent as the unsigned integer that has
  bit 0 say whether the bits above it are to be complemented: \<open>(^i << 1) | 1\<close> for a negative
  \<open>i\<close>, \<open>i << 1\<close> otherwise (-129 is sent as FE 01 01). A boolean is sent as the unsigned
  integer 0 or 1.
\<close>

fun bigEndian :: "nat \<Rightarrow> bytes" where
  "bigEndian n = (if n = 0 then [] else bigEndian (n div 256) @ [of_nat (n mod 256)])"

declare bigEndian.simps [simp del]

definition fromBigEndian :: "bytes \<Rightarrow> nat" where
  "fromBigEndian bs = foldl (\<lambda>a b. a * 256 + unat b) 0 bs"

definition encodeUint :: "nat \<Rightarrow> bytes" where
  "encodeUint n =
     (if n < 128 then [of_nat n]
      else of_nat (256 - length (bigEndian n)) # bigEndian n)"

definition decodeUint :: "bytes \<Rightarrow> (nat \<times> bytes) option" where
  "decodeUint bs =
     (case bs of
        [] \<Rightarrow> None
      | b # rest \<Rightarrow>
          if unat b < 128 then Some (unat b, rest)
          else (let k = 256 - unat b in
                if 8 < k \<or> length rest < k then None
                else Some (fromBigEndian (take k rest), drop k rest)))"

definition encodeInt :: "int \<Rightarrow> bytes" where
  "encodeInt i = encodeUint (if i < 0 then 2 * nat (- i - 1) + 1 else 2 * nat i)"

definition decodeInt :: "bytes \<Rightarrow> (int \<times> bytes) option" where
  "decodeInt bs =
     (case decodeUint bs of
        None \<Rightarrow> None
      | Some (u, rest) \<Rightarrow>
          Some (if odd u then - int (u div 2) - 1 else int (u div 2), rest))"

subsection \<open>gob: strings, byte slices and slices\<close>

text \<open>
  Modelled from the documentation of \<open>encoding/gob\<close>: a string and a slice of bytes are sent
  as an unsigned count and that many bytes; any other slice as an unsigned count and that many
  elements, each in the encoding of its type. A Go string is a sequence of bytes, and so is an
  Isabelle string: \<open>stringBytes\<close> and \<open>bytesString\<close> are the conversions \<open>[]byte(s)\<close> and
  \<open>string(b)\<close>.
\<close>

definition encodeBytes :: "bytes \<Rightarrow> bytes" where
  "encodeBytes bs = encodeUint (length bs) @ bs"

definition decodeBytes :: "bytes \<Rightarrow> (bytes \<times> bytes) option" where
  "decodeBytes bs =
     (case decodeUint bs of
        None \<Rightarrow> None
      | Some (n, rest) \<Rightarrow>
          if length rest < n then None else Some (take n rest, drop n rest))"

definition stringBytes :: "string \<Rightarrow> bytes" where
  "stringBytes s = map (\<lambda>c. of_nat (of_char c)) s"

definition bytesString :: "bytes \<Rightarrow> string" where
  "bytesString bs = map (\<lambda>b. char_of (unat b)) bs"

definition encodeString :: "string \<Rightarrow> bytes" where
  "encodeString s = encodeBytes (stringBytes s)"

definition decodeString :: "bytes \<Rightarrow> (string \<times> bytes) option" where
  "decodeString bs =
     (case decodeBytes bs of
        None \<Rightarrow> None
      | Some (s, rest) \<Rightarrow> Some (bytesString s, rest))"

fun decodeElements ::
  "nat \<Rightarrow> (bytes \<Rightarrow> ('a \<times> bytes) option) \<Rightarrow> bytes \<Rightarrow> ('a list \<times> bytes) option" where
  "decodeElements 0 dec bs = Some ([], bs)"
| "decodeElements (Suc n) dec bs =
     (case dec bs of
        None \<Rightarrow> None
      | Some (x, rest) \<Rightarrow>
          (case decodeElements n dec rest of
             None \<Rightarrow> None
           | Some (xs, rest') \<Rightarrow> Some (x # xs, rest')))"

definition encodeSlice :: "('a \<Rightarrow> bytes) \<Rightarrow> 'a list \<Rightarrow> bytes" where
  "encodeSlice enc xs = encodeUint (length xs) @ concat (map enc xs)"

definition decodeSlice ::
  "(bytes \<Rightarrow> ('a \<times> bytes) option) \<Rightarrow> bytes \<Rightarrow> ('a list \<times> bytes) option" where
  "decodeSlice dec bs =
     (case decodeUint bs of
        None \<Rightarrow> None
      | Some (n, rest) \<Rightarrow> decodeElements n dec rest)"

subsection \<open>gob: structs\<close>

text \<open>
  Modelled from the documentation of \<open>encoding/gob\<close>: a struct is sent as a sequence of
  pairs of a field number and the value of the field. Only the exported fields are fields of
  the encoded type, numbered from 0 in the order of their declaration. A field that has the zero
  value of its type is left out. The field numbers are sent in increasing order as the
  difference to the field number before, which starts at -1, and a difference of 0 ends the
  struct. (A field that is itself a struct with only zero fields is left out here, as the
  documentation has it; sent as a struct with no field it would be received as the same value.)

  \<open>encodeStruct\<close> takes the fields in their order, each with its encoded value or \<open>None\<close> when
  it is left out. \<open>decodeStruct\<close> is the loop of the receiver: it stores every field it is sent
  into the value it was given and leaves the other fields of that value as they are. Every
  round of the loop reads at least the byte of the difference; the fuel of the model is set to
  more than the length of the input by the two callers below, so that it cannot run out before
  the input does.
\<close>

fun encodeStruct :: "int \<Rightarrow> (nat \<times> bytes option) list \<Rightarrow> bytes" where
  "encodeStruct fieldnum [] = [0]"
| "encodeStruct fieldnum ((n, None) # fs) = encodeStruct fieldnum fs"
| "encodeStruct fieldnum ((n, Some v) # fs) =
     encodeUint (nat (int n - fieldnum)) @ v @ encodeStruct (int n) fs"

fun decodeStruct ::
  "nat \<Rightarrow> (nat \<Rightarrow> bytes \<Rightarrow> 'r \<Rightarrow> ('r \<times> bytes) option) \<Rightarrow> int \<Rightarrow> 'r \<Rightarrow> bytes
     \<Rightarrow> ('r \<times> bytes) option" where
  "decodeStruct 0 decodeField fieldnum r bs = None"
| "decodeStruct (Suc fuel) decodeField fieldnum r bs =
     (case decodeUint bs of
        None \<Rightarrow> None
      | Some (delta, rest) \<Rightarrow>
          if delta = 0 then Some (r, rest)
          else (case decodeField (nat (fieldnum + int delta)) rest r of
                  None \<Rightarrow> None
                | Some (r', rest') \<Rightarrow>
                    decodeStruct fuel decodeField (fieldnum + int delta) r' rest'))"

definition unlessZero :: "bool \<Rightarrow> bytes \<Rightarrow> bytes option" where
  "unlessZero isZero v = (if isZero then None else Some v)"

subsection \<open>gob: LineFriends and EventLog\<close>

text \<open>
  The exported fields of \<open>LineFriends\<close> are \<open>IsProcessed\<close> (0), \<open>Offset\<close> (1) and \<open>Emails\<close>
  (2); \<open>emailsMap\<close> is not exported. Those of \<open>EventLog\<close> are \<open>UUID\<close> (0),
  \<open>LamportTimestamp\<close> (1), \<open>EventType\<close> (2), \<open>ListItemKey\<close> (3), \<open>TargetListItemKey\<close> (4),
  \<open>Line\<close> (5), \<open>Note\<close> (6) and \<open>Friends\<close> (7); \<open>cachedKey\<close> is not exported. \<open>uuid\<close> and
  \<open>EventType\<close> are sent as unsigned integers, the Lamport timestamp and \<open>Offset\<close> as signed
  ones.

  A slice of length 0 is left out like a zero value, whether it is \<open>nil\<close> or not: a \<open>Note\<close>
  that is \<open>nil\<close> and one that is \<open>[]byte{}\<close> both send nothing. The \<open>Emails\<close> of the model
  are a list, which does not tell \<open>nil\<close> from an empty slice in the first place.

  The receiver refuses an unsigned integer that does not fit the \<open>uint32\<close> of \<open>uuid\<close>. The
  model also refuses a number above 7 for the event type, where Go stores a value of
  \<open>EventType\<close> that is none of the eight constants, which the datatype of the model does not
  have.
\<close>

definition friendsFields :: "LineFriends \<Rightarrow> (nat \<times> bytes option) list" where
  "friendsFields f =
     [(0, unlessZero (\<not> IsProcessed f) (encodeUint 1)),
      (1, unlessZero (Offset f = 0) (encodeInt (Offset f))),
      (2, unlessZero (length (Emails f) = 0) (encodeSlice encodeString (Emails f)))]"

definition encodeFriends :: "LineFriends \<Rightarrow> bytes" where
  "encodeFriends f = encodeStruct (- 1) (friendsFields f)"

definition decodeFriendsField ::
  "nat \<Rightarrow> bytes \<Rightarrow> LineFriends \<Rightarrow> (LineFriends \<times> bytes) option" where
  "decodeFriendsField n bs f =
     (if n = 0 then
        (case decodeUint bs of
           None \<Rightarrow> None
         | Some (u, rest) \<Rightarrow> Some (f\<lparr>IsProcessed := (u \<noteq> 0)\<rparr>, rest))
      else if n = 1 then
        (case decodeInt bs of
           None \<Rightarrow> None
         | Some (i, rest) \<Rightarrow> Some (f\<lparr>Offset := i\<rparr>, rest))
      else if n = 2 then
        (case decodeSlice decodeString bs of
           None \<Rightarrow> None
         | Some (es, rest) \<Rightarrow> Some (f\<lparr>Emails := es\<rparr>, rest))
      else None)"

definition decodeFriends :: "LineFriends \<Rightarrow> bytes \<Rightarrow> (LineFriends \<times> bytes) option" where
  "decodeFriends f bs = decodeStruct (Suc (length bs)) decodeFriendsField (- 1) f bs"

definition eventTypeNumber :: "EventType \<Rightarrow> nat" where
  "eventTypeNumber t =
     (case t of
        NullEvent \<Rightarrow> 0 | AddEvent \<Rightarrow> 1 | UpdateEvent \<Rightarrow> 2 | MoveUpEvent \<Rightarrow> 3
      | MoveDownEvent \<Rightarrow> 4 | ShowEvent \<Rightarrow> 5 | HideEvent \<Rightarrow> 6 | DeleteEvent \<Rightarrow> 7)"

definition eventTypeOf :: "nat \<Rightarrow> EventType option" where
  "eventTypeOf n =
     (if n = 0 then Some NullEvent else if n = 1 then Some AddEvent
      else if n = 2 then Some UpdateEvent else if n = 3 then Some MoveUpEvent
      else if n = 4 then Some MoveDownEvent else if n = 5 then Some ShowEvent
      else if n = 6 then Some HideEvent else if n = 7 then Some DeleteEvent
      else None)"

definition noteLength :: "bytes option \<Rightarrow> nat" where
  "noteLength n = (case n of None \<Rightarrow> 0 | Some bs \<Rightarrow> length bs)"

definition noteBytes :: "bytes option \<Rightarrow> bytes" where
  "noteBytes n = (case n of None \<Rightarrow> [] | Some bs \<Rightarrow> bs)"

definition zeroValuedFriends :: "LineFriends \<Rightarrow> bool" where
  "zeroValuedFriends f = (\<not> IsProcessed f \<and> Offset f = 0 \<and> length (Emails f) = 0)"

definition eventFields :: "EventLog \<Rightarrow> (nat \<times> bytes option) list" where
  "eventFields e =
     [(0, unlessZero (UUID e = 0) (encodeUint (unat (UUID e)))),
      (1, unlessZero (LamportTimestamp e = 0) (encodeInt (sint (LamportTimestamp e)))),
      (2, unlessZero (EventType e = NullEvent) (encodeUint (eventTypeNumber (EventType e)))),
      (3, unlessZero (length (ListItemKey e) = 0) (encodeString (ListItemKey e))),
      (4, unlessZero (length (TargetListItemKey e) = 0) (encodeString (TargetListItemKey e))),
      (5, unlessZero (length (Line e) = 0) (encodeString (Line e))),
      (6, unlessZero (noteLength (Note e) = 0) (encodeBytes (noteBytes (Note e)))),
      (7, unlessZero (zeroValuedFriends (Friends e)) (encodeFriends (Friends e)))]"

definition encodeEvent :: "EventLog \<Rightarrow> bytes" where
  "encodeEvent e = encodeStruct (- 1) (eventFields e)"

definition decodeEventField :: "nat \<Rightarrow> bytes \<Rightarrow> EventLog \<Rightarrow> (EventLog \<times> bytes) option" where
  "decodeEventField n bs e =
     (if n = 0 then
        (case decodeUint bs of
           None \<Rightarrow> None
         | Some (u, rest) \<Rightarrow>
             if unat (of_nat u :: uuid) = u then Some (e\<lparr>UUID := of_nat u\<rparr>, rest)
             else None)
      else if n = 1 then
        (case decodeInt bs of
           None \<Rightarrow> None
         | Some (i, rest) \<Rightarrow> Some (e\<lparr>LamportTimestamp := of_int i\<rparr>, rest))
      else if n = 2 then
        (case decodeUint bs of
           None \<Rightarrow> None
         | Some (u, rest) \<Rightarrow>
             (case eventTypeOf u of
                None \<Rightarrow> None
              | Some t \<Rightarrow> Some (e\<lparr>EventType := t\<rparr>, rest)))
      else if n = 3 then
        (case decodeString bs of
           None \<Rightarrow> None
         | Some (s, rest) \<Rightarrow> Some (e\<lparr>ListItemKey := s\<rparr>, rest))
      else if n = 4 then
        (case decodeString bs of
           None \<Rightarrow> None
         | Some (s, rest) \<Rightarrow> Some (e\<lparr>TargetListItemKey := s\<rparr>, rest))
      else if n = 5 then
        (case decodeString bs of
           None \<Rightarrow> None
         | Some (s, rest) \<Rightarrow> Some (e\<lparr>Line := s\<rparr>, rest))
      else if n = 6 then
        (case decodeBytes bs of
           None \<Rightarrow> None
         | Some (b, rest) \<Rightarrow> Some (e\<lparr>Note := Some b\<rparr>, rest))
      else if n = 7 then
        (case decodeFriends (Friends e) bs of
           None \<Rightarrow> None
         | Some (f, rest) \<Rightarrow> Some (e\<lparr>Friends := f\<rparr>, rest))
      else None)"

text \<open>
  An element of the slice that the receiver allocates starts as the zero value of \<open>EventLog\<close>.
\<close>

definition decodeEvent :: "bytes \<Rightarrow> (EventLog \<times> bytes) option" where
  "decodeEvent bs = decodeStruct (Suc (length bs)) decodeEventField (- 1) zeroEvent bs"

subsection \<open>gob: the stream of one Encode\<close>

text \<open>
  Modelled from the documentation of \<open>encoding/gob\<close>: \<open>Encode\<close> first sends the definitions
  of the types of the value that the stream has not seen, then the value as one message: the
  unsigned number of the bytes that follow, the signed id of the type of the value, and the
  value. A value that is not a struct is sent like a struct with one field: a 0 comes before it
  (the \<open>SingletonValue\<close> of the grammar).

  The definitions of the types, and the id that they give the type \<open>[]EventLog\<close>, depend on the
  Go types only, not on the log. They are the two fields of \<open>gobTypes\<close>, a parameter. Encoder
  and decoder are built from the same types here, so the decoder of the model does not
  interpret the definitions: it expects them as the encoder writes them and then reads the
  message of the value. What remains of the message behind the value is ignored.
\<close>

record gobTypes =
  typeDefinitions :: bytes
  typeId :: nat

definition valueMessage :: "gobTypes \<Rightarrow> EventLog list \<Rightarrow> bytes" where
  "valueMessage T el = encodeInt (int (typeId T)) @ [0] @ encodeSlice encodeEvent el"

definition gobEncode :: "gobTypes \<Rightarrow> EventLog list \<Rightarrow> bytes" where
  "gobEncode T el =
     typeDefinitions T @ encodeUint (length (valueMessage T el)) @ valueMessage T el"

definition decodeValue :: "gobTypes \<Rightarrow> bytes \<Rightarrow> EventLog list option" where
  "decodeValue T m =
     (case decodeInt m of
        None \<Rightarrow> None
      | Some (i, m') \<Rightarrow>
          if i \<noteq> int (typeId T) then None
          else (case m' of
                  [] \<Rightarrow> None
                | z # m'' \<Rightarrow>
                    if z \<noteq> 0 then None
                    else (case decodeSlice decodeEvent m'' of
                            None \<Rightarrow> None
                          | Some (el, rest) \<Rightarrow> Some el)))"

definition gobDecode :: "gobTypes \<Rightarrow> bytes \<Rightarrow> EventLog list option" where
  "gobDecode T bs =
     (if take (length (typeDefinitions T)) bs \<noteq> typeDefinitions T then None
      else (case decodeUint (drop (length (typeDefinitions T)) bs) of
              None \<Rightarrow> None
            | Some (n, rest) \<Rightarrow>
                if length rest < n then None else decodeValue T (take n rest)))"

subsection \<open>gzip\<close>

text \<open>
  \<open>gzipWrite\<close> gives the bytes that a \<open>gzip.Writer\<close> has written when it is closed,
  \<open>gzipRead\<close> the bytes that a \<open>gzip.Reader\<close> yields, or \<open>None\<close> when the input is not a
  gzip stream.
\<close>

record gzipLibrary =
  gzipWrite :: "bytes \<Rightarrow> bytes"
  gzipRead :: "bytes \<Rightarrow> bytes option"

subsection \<open>buildByteWal\<close>

text \<open>
  The three error returns of \<open>buildByteWal\<close> are those of writes to a \<open>bytes.Buffer\<close> in
  memory and of the encoding of a \<open>[]EventLog\<close>, whose exported fields all have types that gob
  sends; the model has the blob as the result.
\<close>

definition latestWalSchemaID :: nat where
  "latestWalSchemaID = 6"

definition littleEndian16 :: "nat \<Rightarrow> bytes" where
  "littleEndian16 n = [of_nat (n mod 256), of_nat (n div 256 mod 256)]"

definition buildByteWal :: "gzipLibrary \<Rightarrow> gobTypes \<Rightarrow> EventLog list \<Rightarrow> bytes" where
  "buildByteWal Z T el = littleEndian16 latestWalSchemaID @ gzipWrite Z (gobEncode T el)"

subsection \<open>buildFromFile\<close>

text \<open>
  \<open>binary.Read\<close> of the schema id gives \<open>io.EOF\<close> on an empty input, for which the empty
  log is returned with no error, and \<open>io.ErrUnexpectedEOF\<close> on a single byte. For the ids 1
  and 2 the first call of \<open>getNextEventLogFromWalFile\<close> returns the error of an unrecognised
  schema. For the id 6 the goroutine decompresses what follows the id and the main routine
  decodes a \<open>[]EventLog\<close> from it; an error of the decoder is returned. \<open>GzipError\<close> stands
  for what happens when the goroutine cannot decompress. The readers of the ids 3, 4 and 5,
  which convert older layouts of the log, and the fall through of every other id are not
  modelled: \<open>OtherSchema\<close> marks them.
\<close>

datatype loadError = ErrUnexpectedEOF | UnrecognisedSchema | GzipError | GobError

datatype loaded = Loaded "EventLog list" | Failed loadError | OtherSchema nat

definition buildFromFile :: "gzipLibrary \<Rightarrow> gobTypes \<Rightarrow> bytes \<Rightarrow> loaded" where
  "buildFromFile Z T raw =
     (if raw = [] then Loaded []
      else if length raw < 2 then Failed ErrUnexpectedEOF
      else (let walSchemaVersionID = unat (raw ! 0) + 256 * unat (raw ! 1);
                compressed = drop 2 raw in
            if walSchemaVersionID = 1 \<or> walSchemaVersionID = 2 then Failed UnrecognisedSchema
            else if walSchemaVersionID = 6 then
              (case gzipRead Z compressed of
                 None \<Rightarrow> Failed GzipError
               | Some stream \<Rightarrow>
                   (case gobDecode T stream of
                      None \<Rightarrow> Failed GobError
                    | Some el \<Rightarrow> Loaded el))
            else OtherSchema walSchemaVersionID))"

section \<open>Auxiliary definitions for the statements\<close>

text \<open>The pair that \<open>checkEquality\<close> compares, in the lexicographic order of pairs.\<close>

definition eventOrd :: "EventLog \<Rightarrow> int \<times> nat" where
  "eventOrd e = (sint (LamportTimestamp e), unat (UUID e))"

text \<open>Both caches of processed events have been made.\<close>

definition cachesMade :: "DBListRepo \<Rightarrow> bool" where
  "cachesMade r =
     (processedEventLogCache r \<noteq> None \<and> listItemProcessedEventLogTypeCache r \<noteq> None)"

text \<open>The match list and the error of an integrity check.\<close>

definition matchesOf :: "abort + (addr option \<times> DBListRepo \<times> ListItem list \<times> string option) \<Rightarrow> ListItem list" where
  "matchesOf c = (case c of Inl a \<Rightarrow> [] | Inr (root, r, matchItems, err) \<Rightarrow> matchItems)"

definition errorOf :: "abort + (addr option \<times> DBListRepo \<times> ListItem list \<times> string option) \<Rightarrow> string option" where
  "errorOf c = (case c of Inl a \<Rightarrow> None | Inr (root, r, matchItems, err) \<Rightarrow> err)"

text \<open>
  The event that \<open>MoveUp\<close> and \<open>MoveDown\<close> build for an item with no match neighbour: the
  target is null (replica 0, creation time 0).
\<close>

definition moveEvent :: "EventType \<Rightarrow> int64 \<Rightarrow> ListItem0 \<Rightarrow> EventLog0" where
  "moveEvent e t it = \<lparr>EventType0 = e, UUID0 = originUUID it, TargetUUID0 = 0,
     UnixNanoTime0 = t, ListItemCreationTime0 = creationTime it,
     TargetListItemCreationTime0 = 0, Line0 = [], Note0 = None\<rparr>"

text \<open>
  The projection of a repository of part\_000, and the projection that
  \<open>CallFunctionForEventLog\<close> returns for an event.
\<close>

definition applied ::
  "callFunction \<Rightarrow> EventLog0 \<Rightarrow> 'u DBListRepo0
     \<Rightarrow> addr option \<times> (addr \<Rightarrow> ListItem0) \<times> (string \<rightharpoonup> addr)" where
  "applied cfel el r =
     (let ((root, item, err), (h, tracker)) = cfel (Root0 r) el (heap0 r, listItemTracker0 r)
      in (root, h, tracker))"

definition projection0 ::
  "'u DBListRepo0 \<Rightarrow> addr option \<times> (addr \<Rightarrow> ListItem0) \<times> (string \<rightharpoonup> addr)" where
  "projection0 r = (Root0 r, heap0 r, listItemTracker0 r)"

text \<open>
  What a blob keeps of an event: every exported field, with a \<open>Note\<close> of length 0 as \<open>nil\<close>.
\<close>

definition persisted :: "EventLog \<Rightarrow> EventLog" where
  "persisted e = e\<lparr>Note := (if Note e = Some [] then None else Note e), cachedKey := []\<rparr>"

text \<open>
  The values of a Go program: a length is an \<open>int\<close> and so below \<open>2 ^ 63\<close>, \<open>Offset\<close> is an
  \<open>int\<close> of 64 bits, and a type id of gob is an \<open>int32\<close>. The lists and integers of the model
  have no such bounds.
\<close>

definition goLength :: "'a list \<Rightarrow> bool" where
  "goLength xs = (length xs < 2 ^ 63)"

definition goInt :: "int \<Rightarrow> bool" where
  "goInt i = (- (2 ^ 63) \<le> i \<and> i < 2 ^ 63)"

definition goFriends :: "LineFriends \<Rightarrow> bool" where
  "goFriends f =
     (goInt (Offset f) \<and> goLength (Emails f) \<and> (\<forall>s \<in> set (Emails f). goLength s))"

definition goEvent :: "EventLog \<Rightarrow> bool" where
  "goEvent e =
     (goLength (ListItemKey e) \<and> goLength (TargetListItemKey e) \<and> goLength (Line e) \<and>
      goLength (noteBytes (Note e)) \<and> goFriends (Friends e))"

definition goLog :: "gobTypes \<Rightarrow> EventLog list \<Rightarrow> bool" where
  "goLog T el =
     (goLength el \<and> (\<forall>e \<in> set el. goEvent e) \<and> typeId T < 2 ^ 31 \<and>
      goLength (valueMessage T el))"

text \<open>The reader of gzip returns what its writer was given.\<close>

definition readsBack :: "gzipLibrary \<Rightarrow> bool" where
  "readsBack Z = (\<forall>bs. gzipRead Z (gzipWrite Z bs) = Some bs)"

section \<open>Concrete events, logs and repositories\<close>

text \<open>
  Two sorted logs that share the event (Lamport 2, replica 1) and overlap in time.
\<close>

definition stamped :: "int64 \<Rightarrow> uuid \<Rightarrow> EventLog" where
  "stamped t u = zeroEvent\<lparr>LamportTimestamp := t, UUID := u\<rparr>"

definition logA :: "EventLog list" where
  "logA = [stamped 1 1, stamped 2 1]"

definition logB :: "EventLog list" where
  "logB = [stamped 2 1, stamped 3 2]"

text \<open>The two concurrent Adds of replica 1 and replica 2, both at Lamport time 1.\<close>

definition addR1 :: EventLog where
  "addR1 = \<lparr>UUID = 1, LamportTimestamp = 1, EventType = AddEvent, ListItemKey = ''1:1'',
     TargetListItemKey = ''0:0'', Line = ''a'', Note = None, Friends = zeroFriends,
     cachedKey = []\<rparr>"

definition addR2 :: EventLog where
  "addR2 = \<lparr>UUID = 2, LamportTimestamp = 1, EventType = AddEvent, ListItemKey = ''2:1'',
     TargetListItemKey = ''0:0'', Line = ''b'', Note = None, Friends = zeroFriends,
     cachedKey = []\<rparr>"

text \<open>
  An Update of item 7:5 at Lamport time 10 and an Add of the same item at Lamport time 3,
  each from any replica and with any note.
\<close>

definition updateX :: "uuid \<Rightarrow> bytes option \<Rightarrow> EventLog" where
  "updateX u n = \<lparr>UUID = u, LamportTimestamp = 10, EventType = UpdateEvent,
     ListItemKey = ''7:5'', TargetListItemKey = ''0:0'', Line = ''x'', Note = n,
     Friends = zeroFriends, cachedKey = []\<rparr>"

definition addLate :: "uuid \<Rightarrow> bytes option \<Rightarrow> EventLog" where
  "addLate u n = \<lparr>UUID = u, LamportTimestamp = 3, EventType = AddEvent,
     ListItemKey = ''7:5'', TargetListItemKey = ''0:0'', Line = [], Note = n,
     Friends = zeroFriends, cachedKey = []\<rparr>"

text \<open>An Add at Lamport time 5.\<close>

definition addAt5 :: EventLog where
  "addAt5 = \<lparr>UUID = 1, LamportTimestamp = 5, EventType = AddEvent, ListItemKey = ''1:5'',
     TargetListItemKey = ''0:0'', Line = ''a'', Note = None, Friends = zeroFriends,
     cachedKey = []\<rparr>"

text \<open>
  A log whose replay fails the integrity check: three Adds, then a MoveUp of the head
  whose target is the moved item itself.
\<close>

definition addEvent :: "int64 \<Rightarrow> string \<Rightarrow> string \<Rightarrow> EventLog" where
  "addEvent t k l = \<lparr>UUID = 1, LamportTimestamp = t, EventType = AddEvent, ListItemKey = k,
     TargetListItemKey = ''0:0'', Line = l, Note = None, Friends = zeroFriends,
     cachedKey = []\<rparr>"

definition brokenLog :: "EventLog list" where
  "brokenLog = [addEvent 1 ''1:1'' ''a'', addEvent 2 ''1:2'' ''b'', addEvent 3 ''1:3'' ''c'',
     \<lparr>UUID = 1, LamportTimestamp = 4, EventType = MoveUpEvent, ListItemKey = ''1:3'',
      TargetListItemKey = ''1:3'', Line = [], Note = None, Friends = zeroFriends,
      cachedKey = []\<rparr>]"

text \<open>
  A log in which an Update creates its item (there is no Add for \<open>1:2\<close>) and a later
  Update changes its line.
\<close>

definition updateCreates :: "EventLog list" where
  "updateCreates =
     [addEvent 1 ''1:1'' ''a'',
      (addEvent 2 ''1:2'' ''x'')\<lparr>EventType := UpdateEvent\<rparr>,
      addEvent 3 ''1:3'' ''b'',
      (addEvent 4 ''1:2'' ''y'')\<lparr>EventType := UpdateEvent\<rparr>]"

text \<open>
  A repository of part\_000 whose list and match list hold one item, and stand-ins for the
  two parameters: \<open>noOpCall\<close> leaves the projection as it is and returns no item,
  \<open>noUndo\<close> keeps no undo log.
\<close>

definition noOpCall :: callFunction where
  "noOpCall root el p = ((root, None, None), p)"

definition noUndo :: "unit undoLogger" where
  "noUndo c u = u"

definition soleItem :: ListItem0 where
  "soleItem = \<lparr>itemLine0 = ''a'', itemNote0 = None, IsHidden0 = False, originUUID = 1,
     creationTime = 7, child0 = None, parent0 = None, matchChild0 = None,
     matchParent0 = None\<rparr>"

definition soleRepo :: "unit DBListRepo0" where
  "soleRepo = \<lparr>Root0 = Some 0, heap0 = (\<lambda>a. soleItem), matchListItems0 = [0],
     listItemTracker0 = [''1:7'' \<mapsto> 0], uuid0 = 1, log0 = [], eventsChan0 = [],
     eventLogger0 = ()\<rparr>"

text \<open>
  A stand-in for gzip that stores the bytes as they are, and a stand-in for the definitions of
  the types: none, with 65, the first id that gob gives to a type of the program.
\<close>

definition storing :: gzipLibrary where
  "storing = \<lparr>gzipWrite = (\<lambda>bs. bs), gzipRead = Some\<rparr>"

definition someTypes :: gobTypes where
  "someTypes = \<lparr>typeDefinitions = [], typeId = 65\<rparr>"

text \<open>
  An Update that sets the note of the item \<open>1:1\<close> to the empty note, and an Update with a
  line, a note, friends and a cached key.
\<close>

definition emptyNoteEvent :: EventLog where
  "emptyNoteEvent = zeroEvent\<lparr>UUID := 1, LamportTimestamp := 2, EventType := UpdateEvent,
     ListItemKey := ''1:1'', Note := Some []\<rparr>"

definition sharedEvent :: EventLog where
  "sharedEvent = \<lparr>UUID = 77777, LamportTimestamp = - 5, EventType = UpdateEvent,
     ListItemKey = ''1:1'', TargetListItemKey = [], Line = ''hello'', Note = Some [1, 2],
     Friends = \<lparr>IsProcessed = True, Offset = - 3, Emails = [''a@b'', []]\<rparr>,
     cachedKey = ''77777:-5''\<rparr>"

section \<open>Properties of merge\<close>

lemma LamportTimestamp_eq_iff:
  "LamportTimestamp a = LamportTimestamp b \<longleftrightarrow>
     sint (LamportTimestamp a) = sint (LamportTimestamp b)"
  by (rule word_eq_iff_signed)

lemma UUID_eq_iff: "UUID a = UUID b \<longleftrightarrow> unat (UUID a) = unat (UUID b)"
  by (rule word_unat_eq_iff)

lemma checkEquality_left: "checkEquality a b = leftEventOlder \<longleftrightarrow> eventOrd a < eventOrd b"
  by (auto simp: checkEquality_def eventOrd_def word_sless_alt word_less_nat_alt less_prod_def
      LamportTimestamp_eq_iff)

lemma checkEquality_right: "checkEquality a b = rightEventOlder \<longleftrightarrow> eventOrd b < eventOrd a"
  by (auto simp: checkEquality_def eventOrd_def word_sless_alt word_less_nat_alt less_prod_def
      LamportTimestamp_eq_iff)

lemma checkEquality_equal: "checkEquality a b = eventsEqual \<longleftrightarrow> eventOrd a = eventOrd b"
  by (auto simp: checkEquality_def eventOrd_def word_sless_alt word_less_nat_alt
      LamportTimestamp_eq_iff UUID_eq_iff)

lemma sortedLog_iff: "sortedLog xs \<longleftrightarrow> sorted_wrt (<) (map eventOrd xs)"
  by (simp add: sortedLog_def sorted_wrt_map checkEquality_left)

lemma logsEqual_iff: "logsEqual xs ys \<longleftrightarrow> map eventOrd xs = map eventOrd ys"
  by (simp add: logsEqual_def checkEquality_equal list.rel_map list.rel_eq [symmetric])

lemma mergeLoop_keys:
  assumes "sorted_wrt (<) (map eventOrd xs)" "sorted_wrt (<) (map eventOrd ys)"
    "sorted_wrt (<) (map eventOrd acc)"
    "\<forall>a\<in>set acc. \<forall>b\<in>set xs \<union> set ys. eventOrd a < eventOrd b"
  shows "sorted_wrt (<) (map eventOrd (mergeLoop xs ys acc)) \<and>
         set (map eventOrd (mergeLoop xs ys acc)) =
           set (map eventOrd acc) \<union> set (map eventOrd xs) \<union> set (map eventOrd ys)"
  using assms
proof (induction xs ys acc rule: mergeLoop.induct)
  case (1 mergedEl)
  then show ?case by simp
next
  case (2 y ys mergedEl)
  have ne: "mergedEl = [] \<or> checkEquality y (last mergedEl) \<noteq> eventsEqual"
    using 2(5) by (cases "mergedEl = []") (auto simp: checkEquality_equal)
  have "sorted_wrt (<) (map eventOrd (mergedEl @ [y]))"
    using 2 by (auto simp: sorted_wrt_append)
  moreover have "\<forall>a\<in>set (mergedEl @ [y]). \<forall>b\<in>set [] \<union> set ys. eventOrd a < eventOrd b"
    using 2 by auto
  ultimately show ?case using 2(1)[of ] 2(3) ne by auto
next
  case (3 x xs mergedEl)
  have ne: "mergedEl = [] \<or> checkEquality x (last mergedEl) \<noteq> eventsEqual"
    using 3(5) by (cases "mergedEl = []") (auto simp: checkEquality_equal)
  have "sorted_wrt (<) (map eventOrd (mergedEl @ [x]))"
    using 3 by (auto simp: sorted_wrt_append)
  moreover have "\<forall>a\<in>set (mergedEl @ [x]). \<forall>b\<in>set xs \<union> set []. eventOrd a < eventOrd b"
    using 3 by auto
  ultimately show ?case using 3(1) 3(2) ne by auto
next
  case (4 x xs y ys mergedEl)
  have nex: "mergedEl = [] \<or> checkEquality x (last mergedEl) \<noteq> eventsEqual"
    using 4(7) by (cases "mergedEl = []") (auto simp: checkEquality_equal)
  have ney: "mergedEl = [] \<or> checkEquality y (last mergedEl) \<noteq> eventsEqual"
    using 4(7) by (cases "mergedEl = []") (auto simp: checkEquality_equal)
  show ?case
  proof (cases "checkEquality x y")
    case eventsEqual
    then have e: "eventOrd x = eventOrd y" by (simp add: checkEquality_equal)
    have "sorted_wrt (<) (map eventOrd xs)" using 4(4) by simp
    moreover have "\<forall>a\<in>set mergedEl. \<forall>b\<in>set xs \<union> set (y # ys). eventOrd a < eventOrd b"
      using 4(7) by auto
    ultimately show ?thesis using 4(1)[OF eventsEqual] 4(5) 4(6) eventsEqual e by auto
  next
    case leftEventOlder
    then have l: "eventOrd x < eventOrd y" by (simp add: checkEquality_left)
    have s: "sorted_wrt (<) (map eventOrd xs)" using 4(4) by simp
    have "sorted_wrt (<) (map eventOrd (mergedEl @ [x]))"
      using 4 by (auto simp: sorted_wrt_append)
    moreover have "\<forall>a\<in>set (mergedEl @ [x]). \<forall>b\<in>set xs \<union> set (y # ys). eventOrd a < eventOrd b"
      using 4(4,5,7) l by (auto)
    ultimately show ?thesis using 4(2)[OF leftEventOlder] s 4(5) leftEventOlder nex by auto
  next
    case rightEventOlder
    then have l: "eventOrd y < eventOrd x" by (simp add: checkEquality_right)
    have s: "sorted_wrt (<) (map eventOrd ys)" using 4(5) by simp
    have "sorted_wrt (<) (map eventOrd (mergedEl @ [y]))"
      using 4 by (auto simp: sorted_wrt_append)
    moreover have "\<forall>a\<in>set (mergedEl @ [y]). \<forall>b\<in>set (x # xs) \<union> set ys. eventOrd a < eventOrd b"
      using 4(4,5,7) l by (auto)
    ultimately show ?thesis using 4(3)[OF rightEventOlder] s 4(4) rightEventOlder ney by auto
  qed
qed

lemma sorted_le_last:
  assumes "sorted_wrt (<) (map eventOrd B)" "b \<in> set B"
  shows "eventOrd b \<le> eventOrd (last B)"
  using assms by (induction B) (auto simp: less_imp_le)

lemma sorted_hd_le:
  assumes "sorted_wrt (<) (map eventOrd A)" "a \<in> set A"
  shows "eventOrd (hd A) \<le> eventOrd a"
  using assms by (cases A) (auto simp: less_imp_le)

lemma append_keys:
  assumes "sorted_wrt (<) (map eventOrd A)" "sorted_wrt (<) (map eventOrd B)"
    "eventOrd (last B) < eventOrd (hd A)"
  shows "sorted_wrt (<) (map eventOrd (B @ A))"
proof -
  have "eventOrd b < eventOrd a" if "b \<in> set B" "a \<in> set A" for a b
    using sorted_le_last [OF assms(2) that(1)] sorted_hd_le [OF assms(1) that(2)] assms(3)
    by simp
  then show ?thesis using assms(1,2) by (simp add: sorted_wrt_append)
qed

lemma merge_keys:
  assumes "sortedLog A" "sortedLog B"
  shows "sorted_wrt (<) (map eventOrd (merge A B)) \<and>
         set (map eventOrd (merge A B)) = set (map eventOrd A) \<union> set (map eventOrd B)"
proof -
  have sA: "sorted_wrt (<) (map eventOrd A)" and sB: "sorted_wrt (<) (map eventOrd B)"
    using assms by (simp_all add: sortedLog_iff)
  consider (e1) "A = []" | (e2) "A \<noteq> []" "B = []"
    | (f1) "A \<noteq> []" "B \<noteq> []" "checkEquality (hd A) (last B) = rightEventOlder"
    | (f2) "A \<noteq> []" "B \<noteq> []" "checkEquality (hd A) (last B) \<noteq> rightEventOlder"
        "checkEquality (hd B) (last A) = rightEventOlder"
    | (lp) "A \<noteq> []" "B \<noteq> []" "checkEquality (hd A) (last B) \<noteq> rightEventOlder"
        "checkEquality (hd B) (last A) \<noteq> rightEventOlder"
    by blast
  then show ?thesis
  proof cases
    case e1
    then show ?thesis using sB by (simp add: merge_def)
  next
    case e2
    then show ?thesis using sA by (simp add: merge_def)
  next
    case f1
    then have "eventOrd (last B) < eventOrd (hd A)" by (simp add: checkEquality_right)
    from append_keys [OF sA sB this] f1 show ?thesis by (auto simp: merge_def)
  next
    case f2
    then have "eventOrd (last A) < eventOrd (hd B)" by (simp add: checkEquality_right)
    from append_keys [OF sB sA this] f2 show ?thesis by (auto simp: merge_def)
  next
    case lp
    have "merge A B = mergeLoop A B []" using lp by (simp add: merge_def)
    then show ?thesis using mergeLoop_keys [OF sA sB, of "[]"] by simp
  qed
qed

text \<open>
  C2. For sorted, duplicate-free logs \<open>A\<close> and \<open>B\<close>, \<open>merge A B\<close> and \<open>merge B A\<close> have the
  same length and agree, position by position, under the equality of \<open>checkEquality\<close>
  (Lamport timestamp and replica id).
\<close>

theorem merge_commutative:
  assumes "sortedLog A" and "sortedLog B"
  shows "logsEqual (merge A B) (merge B A)"
proof -
  have "map eventOrd (merge A B) = map eventOrd (merge B A)"
    using merge_keys [OF assms] merge_keys [OF assms(2) assms(1)]
    by (intro strict_sorted_equal) auto
  then show ?thesis by (simp add: logsEqual_iff)
qed

theorem merge_commutative_witness:
  "sortedLog logA \<and> sortedLog logB \<and> logsEqual (merge logA logB) (merge logB logA)"
proof -
  have a: "sortedLog logA"
    by (simp add: logA_def stamped_def sortedLog_def checkEquality_def zeroEvent_def word_sless_alt)
  have b: "sortedLog logB"
    by (simp add: logB_def stamped_def sortedLog_def checkEquality_def zeroEvent_def word_sless_alt)
  from a b merge_commutative [OF a b] show ?thesis by simp
qed

text \<open>On \<open>logA\<close> and \<open>logB\<close> neither shortcut of \<open>merge\<close> applies: the loop runs.\<close>

lemma merge_logA_logB:
  "merge logA logB = [stamped 1 1, stamped 2 1, stamped 3 2]
   \<and> merge logB logA = [stamped 1 1, stamped 2 1, stamped 3 2]"
  by (simp add: merge_def logA_def logB_def stamped_def checkEquality_def zeroEvent_def
      word_sless_alt)

section \<open>Replay of concrete logs\<close>

lemmas event_simps = zeroEvent_def zeroFriends_def eventKey_def Itoa_def digits.simps

lemmas replay_simps = Replay_def processEventLog_def alreadyProcessed_def cachedByType_def
  supersededByType_def noteEvent_def dispatch_def add_def update_def del_def move_def
  setVisibility_def setChild_def setParent_def liveItem_def trackItem_def newRepo_def testRepo_def
  checkEquality_def word_sless_alt word_sle_eq zeroItem_def Let_def merge_def

lemmas match_simps = replayList_def projection_def Match_def matchLoop.simps matchStep_def
  groupsMatch_def noGroupMatch_def itemView_def

subsection \<open>Two replicas add at the same Lamport time\<close>

lemma merge_R1_R2: "merge [addR1] [addR2] = [addR1, addR2]"
  by (simp add: merge_def addR1_def addR2_def checkEquality_def word_sless_alt)

lemma merge_R2_R1: "merge [addR2] [addR1] = [addR1, addR2]"
  by (simp add: merge_def addR1_def addR2_def checkEquality_def word_sless_alt)

lemma replay_R1_R2:
  "replayList [addR1, addR2] newRepo
     = Inr [(''2:1'', ''b'', None, False), (''1:1'', ''a'', None, False)]"
  by (simp add: addR1_def addR2_def event_simps replay_simps match_simps)

text \<open>
  The order claimed for the merged log, with replica 1 at the head, is not the one that
  replay produces.
\<close>

theorem two_replica_add_counterexample:
  "replayList (merge [addR1] [addR2]) newRepo
     \<noteq> Inr [(''1:1'', ''a'', None, False), (''2:1'', ''b'', None, False)]"
  by (simp add: merge_R1_R2 replay_R1_R2)

text \<open>
  C4 (amended). Replica 1 emits Add(key 1:1, line a, target 0:0) and replica 2 emits
  Add(key 2:1, line b, target 0:0), both at Lamport time 1. Merging the two logs in either
  order gives the log with replica 1's event first, and replaying it into an empty
  repository gives the list 2:1 "b", 1:1 "a" from the head: the target 0:0 names no item,
  so each Add is inserted at the head and the Add replayed last is the head.
\<close>

theorem two_replica_add:
  "merge [addR1] [addR2] = [addR1, addR2] \<and> merge [addR2] [addR1] = [addR1, addR2]
   \<and> replayList (merge [addR1] [addR2]) newRepo
       = Inr [(''2:1'', ''b'', None, False), (''1:1'', ''a'', None, False)]
   \<and> replayList (merge [addR2] [addR1]) newRepo
       = Inr [(''2:1'', ''b'', None, False), (''1:1'', ''a'', None, False)]"
  by (simp add: merge_R1_R2 merge_R2_R1 replay_R1_R2)

text \<open>
  When each replica has replayed its own Add and then replays the other's, the head is
  the Add that arrived last: the two replicas end with opposite orders.
\<close>

lemma replay_after_own_add:
  "(case Replay [addR1] newRepo of Inl a \<Rightarrow> Inl a | Inr r \<Rightarrow> replayList [addR2] r)
     = Inr [(''2:1'', ''b'', None, False), (''1:1'', ''a'', None, False)]
   \<and> (case Replay [addR2] newRepo of Inl a \<Rightarrow> Inl a | Inr r \<Rightarrow> replayList [addR1] r)
     = Inr [(''1:1'', ''a'', None, False), (''2:1'', ''b'', None, False)]"
  by (simp add: addR1_def addR2_def event_simps replay_simps match_simps)

subsection \<open>An Update that arrives before its Add\<close>

lemma key_update: "eventKey (updateX u n) = Itoa (uint u) @ '':10''"
  by (simp add: eventKey_def updateX_def Itoa_def digits.simps)

lemma key_add: "eventKey (addLate u n) = Itoa (uint u) @ '':3''"
  by (simp add: eventKey_def addLate_def Itoa_def digits.simps)

lemma keys_differ: "eventKey (addLate u2 n2) \<noteq> eventKey (updateX u1 n1)"
proof
  assume "eventKey (addLate u2 n2) = eventKey (updateX u1 n1)"
  then have "last (Itoa (uint u2) @ '':3'') = last (Itoa (uint u1) @ '':10'')"
    by (simp only: key_update key_add)
  then show False by simp
qed

text \<open>
  C5. Update(key 7:5, line x, Lamport 10) followed by Add(key 7:5, empty line, target 0:0,
  Lamport 3), replayed into an empty repository, gives a list of exactly one item, with
  key 7:5 and line x, whatever replicas the two events come from and whatever notes they
  carry: the Update adds the item, and the Add, finding it, only sets its note.
\<close>

theorem out_of_order_update:
  "replayList [updateX u1 n1, addLate u2 n2] newRepo = Inr [(''7:5'', ''x'', n2, False)]"
proof -
  have k: "eventKey (addLate u2 n2) \<noteq> eventKey (updateX u1 n1)" by (rule keys_differ)
  have f: "ListItemKey (updateX u1 n1) = ''7:5''" "ListItemKey (addLate u2 n2) = ''7:5''"
    "TargetListItemKey (updateX u1 n1) = ''0:0''" "TargetListItemKey (addLate u2 n2) = ''0:0''"
    "EventType (updateX u1 n1) = UpdateEvent" "EventType (addLate u2 n2) = AddEvent"
    "Line (updateX u1 n1) = ''x''" "Line (addLate u2 n2) = []"
    "Note (updateX u1 n1) = n1" "Note (addLate u2 n2) = n2"
    "Friends (updateX u1 n1) = zeroFriends" "Friends (addLate u2 n2) = zeroFriends"
    "LamportTimestamp (updateX u1 n1) = 10" "LamportTimestamp (addLate u2 n2) = 3"
    by (simp_all add: updateX_def addLate_def)
  show ?thesis
    using k by (simp add: f zeroFriends_def replay_simps match_simps)
qed

section \<open>The Lamport clock\<close>

text \<open>
  Replaying an event with Lamport time 5 into an empty repository (clock 0) leaves the
  clock at 5, not at 6.
\<close>

theorem clock_counterexample:
  "clockAfter addAt5 newRepo = Inr 5 \<and> clockAfter addAt5 newRepo \<noteq> Inr (5 + 1)"
  by (simp add: clockAfter_def addAt5_def event_simps replay_simps)

lemma clock_add [simp]: "currentLamportTimestamp (snd (add k l f n c r)) = currentLamportTimestamp r"
  by (simp add: add_def setChild_def setParent_def Let_def split: option.splits)

lemma clock_update [simp]: "currentLamportTimestamp (update i l f n r) = currentLamportTimestamp r"
  by (simp add: update_def Let_def)

lemma clock_del [simp]: "currentLamportTimestamp (del i r) = currentLamportTimestamp r"
  by (simp add: del_def setChild_def setParent_def Let_def split: option.splits)

lemma clock_setVisibility [simp]:
  "currentLamportTimestamp (setVisibility i v r) = currentLamportTimestamp r"
  by (simp add: setVisibility_def)

lemma clock_move [simp]: "currentLamportTimestamp (snd (move i c r)) = currentLamportTimestamp r"
proof -
  obtain a r2 where eq: "add (key (heap (del i r) i)) (rawLine (heap (del i r) i))
      (friends (heap (del i r) i)) (itemNote (heap (del i r) i)) c (del i r) = (a, r2)"
    by (cases "add (key (heap (del i r) i)) (rawLine (heap (del i r) i))
      (friends (heap (del i r) i)) (itemNote (heap (del i r) i)) c (del i r)")
  have "currentLamportTimestamp r2 = currentLamportTimestamp r"
    using clock_add [of "key (heap (del i r) i)" "rawLine (heap (del i r) i)"
      "friends (heap (del i r) i)" "itemNote (heap (del i r) i)" c "del i r"] eq by simp
  then show ?thesis by (simp add: move_def Let_def eq)
qed

lemma clock_trackItem [simp]:
  "currentLamportTimestamp (trackItem k i r) = currentLamportTimestamp r"
  by (simp add: trackItem_def split: option.splits)

lemma clock_dispatch: "currentLamportTimestamp (snd (dispatch e i t r)) = currentLamportTimestamp r"
proof (cases i)
  case None
  then show ?thesis
    by (simp add: dispatch_def split_beta)
next
  case (Some a)
  then show ?thesis
    by (cases "EventType e") (simp_all add: dispatch_def split_beta)
qed

lemma checkEquality_cachedKey:
  "checkEquality ce (e\<lparr>cachedKey := k\<rparr>) = checkEquality ce e"
  by (simp add: checkEquality_def)

text \<open>
  On a repository whose two caches have been made, \<open>processEventLog\<close> returns, and it
  leaves both caches made: \<open>Replay\<close> of any log returns.
\<close>

lemma processEventLog_returns:
  assumes "cachesMade r"
  shows "\<exists>item r'. processEventLog e r = Inr (item, r')"
proof -
  have pair: "\<exists>item r'. Inr p = (Inr (item, r') :: abort + (addr option \<times> DBListRepo))" for p
    by (cases p) simp
  show ?thesis
    using assms by (auto simp: cachesMade_def processEventLog_def Let_def pair split: option.splits)
qed

lemma caches_add [simp]: "cachesMade (snd (add k l f n c r)) = cachesMade r"
  by (simp add: cachesMade_def add_def setChild_def setParent_def Let_def split: option.splits)

lemma caches_update [simp]: "cachesMade (update i l f n r) = cachesMade r"
  by (simp add: cachesMade_def update_def Let_def)

lemma caches_del [simp]: "cachesMade (del i r) = cachesMade r"
  by (simp add: cachesMade_def del_def setChild_def setParent_def Let_def split: option.splits)

lemma caches_setVisibility [simp]: "cachesMade (setVisibility i v r) = cachesMade r"
  by (simp add: cachesMade_def setVisibility_def)

lemma caches_trackItem [simp]: "cachesMade (trackItem k i r) = cachesMade r"
  by (simp add: cachesMade_def trackItem_def split: option.splits)

lemma caches_move [simp]: "cachesMade (snd (move i c r)) = cachesMade r"
proof -
  let ?d = "del i r"
  obtain a r2 where eq: "add (key (heap ?d i)) (rawLine (heap ?d i)) (friends (heap ?d i))
      (itemNote (heap ?d i)) c ?d = (a, r2)"
    by (cases "add (key (heap ?d i)) (rawLine (heap ?d i)) (friends (heap ?d i))
      (itemNote (heap ?d i)) c ?d")
  have "cachesMade r2 = cachesMade r"
    using caches_add [of "key (heap ?d i)" "rawLine (heap ?d i)" "friends (heap ?d i)"
      "itemNote (heap ?d i)" c ?d] eq by simp
  then show ?thesis by (simp add: move_def Let_def eq)
qed

lemma caches_dispatch: "cachesMade (snd (dispatch e i t r)) = cachesMade r"
proof (cases i)
  case None
  then show ?thesis by (simp add: dispatch_def split_beta)
next
  case (Some a)
  then show ?thesis by (cases "EventType e") (simp_all add: dispatch_def split_beta)
qed

lemma processEventLog_caches:
  assumes "processEventLog e r = Inr (item, r')" and "cachesMade r"
  shows "cachesMade r'"
proof -
  obtain c tc where c: "processedEventLogCache r = Some c"
    and tc: "listItemProcessedEventLogTypeCache r = Some tc"
    using assms(2) by (auto simp: cachesMade_def)
  let ?e = "e\<lparr>cachedKey := eventKey e\<rparr>"
  let ?r1 = "r\<lparr>processedEventLogCache := Some (insert (eventKey e) c)\<rparr>"
  have r1: "cachesMade ?r1" by (simp add: cachesMade_def tc)
  consider (seen) "alreadyProcessed e r"
    | (old) "\<not> alreadyProcessed e r" "supersededByType ?e ?r1"
    | (new) "\<not> alreadyProcessed e r" "\<not> supersededByType ?e ?r1"
    by blast
  then show ?thesis
  proof cases
    case seen
    then have "r' = r" using assms(1) by (simp add: processEventLog_def Let_def)
    then show ?thesis using assms(2) by simp
  next
    case old
    then have "r' = ?r1" using assms(1) c by (simp add: processEventLog_def Let_def)
    then show ?thesis using r1 by simp
  next
    case new
    define r3 where "r3 = noteEvent ?e tc ?r1"
    have r3: "cachesMade r3"
      by (simp add: r3_def noteEvent_def Let_def cachesMade_def)
    have "(item, r') = dispatch ?e (liveItem r3 (listItemTracker r (ListItemKey e)))
             (liveItem r3 (listItemTracker r (TargetListItemKey e))) r3"
      using assms(1) new c tc by (simp add: processEventLog_def Let_def r3_def)
    then have "r' = snd (dispatch ?e (liveItem r3 (listItemTracker r (ListItemKey e)))
             (liveItem r3 (listItemTracker r (TargetListItemKey e))) r3)"
      by (metis snd_conv)
    then show ?thesis using r3 by (simp add: caches_dispatch)
  qed
qed

lemma replayEvents_returns:
  assumes "cachesMade r"
  shows "\<exists>r'. replayEvents wal r = Inr r' \<and> cachesMade r'"
  using assms
proof (induction wal arbitrary: r)
  case Nil
  then show ?case by simp
next
  case (Cons e wal)
  obtain item r1 where p: "processEventLog e r = Inr (item, r1)"
    using processEventLog_returns [OF Cons.prems] by blast
  have "cachesMade r1" using processEventLog_caches [OF p Cons.prems] .
  from Cons.IH [OF this] show ?case by (simp add: p)
qed

lemma Replay_returns:
  assumes "cachesMade r"
  shows "\<exists>r'. Replay wal r = Inr r'"
  using replayEvents_returns [OF assms, of wal] by (auto simp: Replay_def)

text \<open>
  C3 (amended). When \<open>processEventLog\<close> returns, the clock is unchanged if the event was
  skipped by one of the two caches (its key was already processed, or an event of the
  same type on the same item that is not older was applied), and otherwise it is the
  maximum of the clock before and the event's Lamport time, as signed numbers. Nothing
  is added to it: the clock reaches the incoming timestamp and does not pass it.
\<close>

theorem clock_after_event:
  assumes "processEventLog e r = Inr (item, r')"
  shows "(alreadyProcessed e r \<or> supersededByType e r
            \<longrightarrow> currentLamportTimestamp r' = currentLamportTimestamp r)
       \<and> (\<not> alreadyProcessed e r \<and> \<not> supersededByType e r
            \<longrightarrow> sint (currentLamportTimestamp r')
                 = max (sint (currentLamportTimestamp r)) (sint (LamportTimestamp e)))"
proof (cases "alreadyProcessed e r")
  case True
  then show ?thesis using assms by (simp add: processEventLog_def Let_def)
next
  case False
  then obtain c where c: "processedEventLogCache r = Some c"
    using assms by (cases "processedEventLogCache r") (simp_all add: processEventLog_def Let_def)
  let ?e = "e\<lparr>cachedKey := eventKey e\<rparr>"
  let ?r1 = "r\<lparr>processedEventLogCache := Some (insert (eventKey e) c)\<rparr>"
  have sup: "supersededByType ?e ?r1 = supersededByType e r"
    by (simp add: supersededByType_def cachedByType_def checkEquality_cachedKey
        cong: option.case_cong)
  show ?thesis
  proof (cases "supersededByType e r")
    case True
    then have "r' = ?r1" using assms False c sup by (simp add: processEventLog_def Let_def)
    then have "currentLamportTimestamp r' = currentLamportTimestamp r" by simp
    then show ?thesis using True by simp
  next
    case sf: False
    then obtain tc where tc: "listItemProcessedEventLogTypeCache r = Some tc"
      using assms False c sup
      by (cases "listItemProcessedEventLogTypeCache r") (simp_all add: processEventLog_def Let_def)
    define r3 where "r3 = noteEvent ?e tc ?r1"
    have "(item, r') = dispatch ?e (liveItem r3 (listItemTracker r (ListItemKey e)))
             (liveItem r3 (listItemTracker r (TargetListItemKey e))) r3"
      using assms False c sup sf tc by (simp add: processEventLog_def Let_def r3_def)
    then have "r' = snd (dispatch ?e (liveItem r3 (listItemTracker r (ListItemKey e)))
             (liveItem r3 (listItemTracker r (TargetListItemKey e))) r3)"
      by (metis snd_conv)
    then have "currentLamportTimestamp r' = currentLamportTimestamp r3"
      by (simp add: clock_dispatch)
    moreover have "sint (currentLamportTimestamp r3)
        = max (sint (currentLamportTimestamp r)) (sint (LamportTimestamp e))"
      by (simp add: r3_def noteEvent_def Let_def word_sle_eq max_def)
    ultimately show ?thesis using False sf by simp
  qed
qed

theorem clock_after_event_witness:
  "\<not> alreadyProcessed addAt5 newRepo \<and> \<not> supersededByType addAt5 newRepo
   \<and> clockAfter addAt5 newRepo = Inr 5
   \<and> alreadyProcessed addAt5 (newRepo\<lparr>processedEventLogCache := Some {''1:5''}\<rparr>)
   \<and> clockAfter addAt5 (newRepo\<lparr>processedEventLogCache := Some {''1:5''}\<rparr>) = Inr 0"
proof -
  have a: "\<not> alreadyProcessed addAt5 newRepo"
    by (simp add: alreadyProcessed_def newRepo_def)
  have b: "\<not> supersededByType addAt5 newRepo"
    by (simp add: supersededByType_def cachedByType_def newRepo_def)
  have "\<exists>item r'. processEventLog addAt5 newRepo = Inr (item, r')"
    by (simp add: addAt5_def event_simps replay_simps)
  then obtain item r' where p: "processEventLog addAt5 newRepo = Inr (item, r')"
    by blast
  have "sint (currentLamportTimestamp r') = max (sint (currentLamportTimestamp newRepo))
          (sint (LamportTimestamp addAt5))"
    using clock_after_event [OF p] a b by simp
  then have "sint (currentLamportTimestamp r') = sint (5 :: int64)"
    by (simp add: newRepo_def testRepo_def addAt5_def)
  then have "currentLamportTimestamp r' = 5"
    by (simp only: word_eq_iff_signed [symmetric])
  then have c: "clockAfter addAt5 newRepo = Inr 5"
    using p by (simp add: clockAfter_def)
  let ?seen = "newRepo\<lparr>processedEventLogCache := Some {''1:5''}\<rparr>"
  have d: "alreadyProcessed addAt5 ?seen"
    by (simp add: alreadyProcessed_def addAt5_def event_simps)
  have "\<exists>item r'. processEventLog addAt5 ?seen = Inr (item, r')"
    using d by (simp add: processEventLog_def Let_def)
  then obtain item2 r2 where q: "processEventLog addAt5 ?seen = Inr (item2, r2)"
    by blast
  have "currentLamportTimestamp r2 = currentLamportTimestamp ?seen"
    using clock_after_event [OF q] d by simp
  then have e: "clockAfter addAt5 ?seen = Inr 0"
    using q by (simp add: clockAfter_def newRepo_def testRepo_def)
  from a b c d e show ?thesis by simp
qed

section \<open>compact\<close>

lemma processEventLog_testRepo: "processEventLog e testRepo = Inl NilMapAssignment"
  by (simp add: processEventLog_def alreadyProcessed_def testRepo_def Let_def)

lemma insertEvent_nonempty: "insertEvent e xs \<noteq> []"
  by (cases xs) simp_all

lemma sortWal_nonempty: "wal \<noteq> [] \<Longrightarrow> sortWal wal \<noteq> []"
  by (cases wal rule: rev_cases) (simp_all add: sortWal_def insertEvent_nonempty)

text \<open>
  C1 (what the code does). \<open>compact\<close> never returns a compacted log for a non-empty log:
  its first integrity check replays the log into a test repository whose caches of
  processed events are \<open>nil\<close> maps, and the first event's entry into
  \<open>processedEventLogCache\<close> is an assignment to a \<open>nil\<close> map.
\<close>

theorem compact_panics:
  assumes "wal \<noteq> []"
  shows "compact wal r = Inl NilMapAssignment"
proof -
  obtain e es where s: "sortWal wal = e # es"
    using sortWal_nonempty [OF assms] by (cases "sortWal wal") auto
  have "checkWalIntegrity (e # es) = Inl NilMapAssignment"
    by (simp add: checkWalIntegrity_def checkIntegrityFrom_def Replay_def processEventLog_testRepo)
  then show ?thesis using assms s by (simp add: compact_def)
qed


theorem compact_panics_witness:
  "[addR1] \<noteq> [] \<and> compact [addR1] newRepo = Inl NilMapAssignment"
proof -
  have n: "[addR1] \<noteq> []" by simp
  from n compact_panics [OF n, of newRepo] show ?thesis by simp
qed

text \<open>
  The sweep of \<open>compact\<close> keeps a subsequence of the sorted log, so the compacted log is
  never longer.
\<close>

lemma sweep_keeps:
  "\<exists>ys. sweep es updateWithNote updateWithLine compactedWal = compactedWal @ ys \<and> subseq ys es"
proof (induction es arbitrary: updateWithNote updateWithLine compactedWal)
  case Nil
  then show ?case by simp
next
  case (Cons e es)
  have drop: "\<exists>ys. sweep es n l compactedWal = compactedWal @ ys \<and> subseq ys (e # es)" for n l
    using Cons.IH [of n l compactedWal] by (auto intro: subseq_Cons')
  have keep: "\<exists>ys. sweep es n l (compactedWal @ [e]) = compactedWal @ ys \<and> subseq ys (e # es)"
    for n l
  proof -
    obtain ys where "sweep es n l (compactedWal @ [e]) = (compactedWal @ [e]) @ ys" "subseq ys es"
      using Cons.IH [of n l "compactedWal @ [e]"] by blast
    then have "sweep es n l (compactedWal @ [e]) = compactedWal @ (e # ys) \<and> subseq (e # ys) (e # es)"
      by simp
    then show ?thesis by blast
  qed
  show ?case using drop keep by simp
qed

lemma subseq_rev: "subseq xs ys \<Longrightarrow> subseq (rev xs) (rev ys)"
proof (induction rule: list_emb.induct)
  case (list_emb_Nil ys)
  then show ?case by simp
next
  case (list_emb_Cons xs ys y)
  then show ?case by (simp add: subseq_rev_drop_many)
next
  case (list_emb_Cons2 x y xs ys)
  then show ?case by (simp add: list_emb_append_mono)
qed

lemma sweep_subseq: "subseq (rev (sweep (rev wal) {} {} [])) wal"
proof -
  obtain ys where "sweep (rev wal) {} {} [] = ys" "subseq ys (rev wal)"
    using sweep_keeps [of "rev wal" "{}" "{}" "[]"] by auto
  then show ?thesis using subseq_rev [of ys "rev wal"] by simp
qed

lemma sweep_length: "length (rev (sweep (rev wal) {} {} [])) \<le> length wal"
  using sweep_subseq [of wal] by (rule list_emb_length)

text \<open>
  The sweep of \<open>compact\<close> by itself does not preserve the projection either. In
  \<open>updateCreates\<close> the first Update of item 1:2 adds the item, between the two Adds; the
  sweep drops it for the later Update, which then adds the item after both Adds.
\<close>

lemma sortWal_updateCreates: "sortWal updateCreates = updateCreates"
  by (simp add: sortWal_def updateCreates_def addEvent_def checkEquality_def word_sless_alt)

lemma sweep_updateCreates:
  "rev (sweep (rev updateCreates) {} {} [])
     = [addEvent 1 ''1:1'' ''a'', addEvent 3 ''1:3'' ''b'',
        (addEvent 4 ''1:2'' ''y'')\<lparr>EventType := UpdateEvent\<rparr>]"
  by (simp add: updateCreates_def addEvent_def)

lemma sweep_changes_projection:
  "replayList updateCreates newRepo
     = Inr [(''1:3'', ''b'', None, False), (''1:2'', ''y'', None, False),
            (''1:1'', ''a'', None, False)]
   \<and> replayList (rev (sweep (rev updateCreates) {} {} [])) newRepo
     = Inr [(''1:2'', ''y'', None, False), (''1:3'', ''b'', None, False),
            (''1:1'', ''a'', None, False)]"
  by (simp add: sweep_updateCreates)
     (simp add: updateCreates_def addEvent_def event_simps replay_simps match_simps)

section \<open>recoverWal\<close>

text \<open>
  Whatever the log and the match list, every Add that \<open>recoverWal\<close> emits has replica id 0
  and Lamport time 0, and with them the event key 0:0.
\<close>

lemma zero_stamp_key:
  "UUID e = 0 \<Longrightarrow> LamportTimestamp e = 0 \<Longrightarrow> cachedKey e = [] \<Longrightarrow> eventKey e = ''0:0''"
  by (simp add: eventKey_def Itoa_def digits.simps)

lemma recoverEmit_add_keys:
  assumes "\<forall>e\<in>set newWal. EventType e = AddEvent \<longrightarrow> eventKey e = ''0:0''"
    and "e \<in> set (fst (recoverEmit acknowledgedItems ks newWal r))"
    and "EventType e = AddEvent"
  shows "eventKey e = ''0:0''"
  using assms
proof (induction ks arbitrary: newWal r)
  case Nil
  then show ?case by simp
next
  case (Cons k ks)
  define item where "item = (case acknowledgedItems k of None \<Rightarrow> zeroItem | Some it \<Rightarrow> it)"
  define addEl where "addEl = zeroEvent\<lparr>EventType := AddEvent, ListItemKey := key item,
                                Line := rawLine item, Note := itemNote item\<rparr>"
  have k: "eventKey addEl = ''0:0''"
    by (rule zero_stamp_key) (simp_all add: addEl_def zeroEvent_def)
  show ?case
  proof (cases "IsHidden item")
    case True
    define r1 where "r1 = r\<lparr>currentLamportTimestamp := currentLamportTimestamp r + 1\<rparr>"
    define hideEl where "hideEl = zeroEvent\<lparr>EventType := HideEvent,
                                  LamportTimestamp := currentLamportTimestamp r1,
                                  ListItemKey := key item\<rparr>"
    have h: "EventType hideEl \<noteq> AddEvent" by (simp add: hideEl_def)
    have inv: "\<forall>e\<in>set (newWal @ [addEl] @ [hideEl]). EventType e = AddEvent \<longrightarrow> eventKey e = ''0:0''"
      using Cons.prems(1) k h by auto
    have "e \<in> set (fst (recoverEmit acknowledgedItems ks (newWal @ [addEl] @ [hideEl]) r1))"
      using Cons.prems(2) True
      by (simp add: Let_def item_def [symmetric] addEl_def [symmetric] r1_def [symmetric]
          hideEl_def [symmetric])
    from Cons.IH [OF inv this Cons.prems(3)] show ?thesis .
  next
    case False
    have inv: "\<forall>e\<in>set (newWal @ [addEl]). EventType e = AddEvent \<longrightarrow> eventKey e = ''0:0''"
      using Cons.prems(1) k by auto
    have "e \<in> set (fst (recoverEmit acknowledgedItems ks (newWal @ [addEl]) r))"
      using Cons.prems(2) False
      by (simp add: Let_def item_def [symmetric] addEl_def [symmetric])
    from Cons.IH [OF inv this Cons.prems(3)] show ?thesis .
  qed
qed

lemma recoverWal_add_keys:
  assumes "e \<in> set (fst (recoverWal wal matches r))" and "EventType e = AddEvent"
  shows "eventKey e = ''0:0''"
proof -
  obtain ack0 listOrder where m: "ackMatches matches = (ack0, listOrder)"
    by (cases "ackMatches matches")
  have "e \<in> set (fst (recoverEmit (foldl ackEvent ack0 wal) (rev listOrder) [] r))"
    using assms(1) m by (simp add: recoverWal_def)
  then show ?thesis
    using recoverEmit_add_keys [of "[]" e "foldl ackEvent ack0 wal" "rev listOrder" r] assms(2)
    by simp
qed

lemma broken_integrity:
  "errorOf (checkIntegrityFrom newRepo brokenLog)
     = Some ''list integrity error: root has a child pointer''"
  by (simp add: errorOf_def checkIntegrityFrom_def brokenLog_def addEvent_def checkListItemPtrs_def
      event_simps replay_simps match_simps)

lemma broken_matches:
  "matchesOf (checkIntegrityFrom newRepo brokenLog)
     = [zeroItem\<lparr>key := ''1:2'', rawLine := ''b'', child := Some 3, parent := Some 0\<rparr>,
        zeroItem\<lparr>key := ''1:1'', rawLine := ''a'', child := Some 1\<rparr>]"
  by (simp add: matchesOf_def checkIntegrityFrom_def brokenLog_def addEvent_def checkListItemPtrs_def
      event_simps replay_simps match_simps)

lemma broken_recovered:
  "fst (recoverWal brokenLog (matchesOf (checkIntegrityFrom newRepo brokenLog)) newRepo)
     = [zeroEvent\<lparr>EventType := AddEvent, ListItemKey := ''1:1'', Line := ''a''\<rparr>,
        zeroEvent\<lparr>EventType := AddEvent, ListItemKey := ''1:2'', Line := ''b''\<rparr>]"
  by (simp add: broken_matches)
     (simp add: recoverWal_def ackMatches_def ackEvent_def brokenLog_def addEvent_def
        zeroItem_def zeroEvent_def zeroFriends_def)

text \<open>
  C9 (what the code does). The replay of \<open>brokenLog\<close> fails the integrity check, with the
  match list 1:2 "b", 1:1 "a". The log that \<open>recoverWal\<close> builds from the two has one Add
  per key, and every Add has replica id 0 and Lamport time 0, hence the same event key
  0:0: replay applies the first Add and skips the second as already processed. The
  recovered log projects to the single item 1:1, not to the match list.
\<close>

theorem recovered_log_loses_item:
  "errorOf (checkIntegrityFrom newRepo brokenLog)
     = Some ''list integrity error: root has a child pointer''
   \<and> map itemView (matchesOf (checkIntegrityFrom newRepo brokenLog))
     = [(''1:2'', ''b'', None, False), (''1:1'', ''a'', None, False)]
   \<and> map eventKey
       (fst (recoverWal brokenLog (matchesOf (checkIntegrityFrom newRepo brokenLog)) newRepo))
     = [''0:0'', ''0:0'']
   \<and> replayList
       (fst (recoverWal brokenLog (matchesOf (checkIntegrityFrom newRepo brokenLog)) newRepo))
       newRepo
     = Inr [(''1:1'', ''a'', None, False)]"
proof -
  have m: "map itemView (matchesOf (checkIntegrityFrom newRepo brokenLog))
      = [(''1:2'', ''b'', None, False), (''1:1'', ''a'', None, False)]"
    by (simp add: broken_matches itemView_def zeroItem_def)
  have k: "map eventKey
       (fst (recoverWal brokenLog (matchesOf (checkIntegrityFrom newRepo brokenLog)) newRepo))
      = [''0:0'', ''0:0'']"
    by (simp add: broken_recovered event_simps)
  have p: "replayList
       (fst (recoverWal brokenLog (matchesOf (checkIntegrityFrom newRepo brokenLog)) newRepo))
       newRepo
      = Inr [(''1:1'', ''a'', None, False)]"
    by (simp add: broken_recovered) (simp add: event_simps replay_simps match_simps)
  show ?thesis
    by (intro conjI broken_integrity m k p)
qed

section \<open>The mutation API\<close>

text \<open>
  C7. Called with an index that is negative or not less than the length of the match
  list, \<open>Update\<close>, \<open>Delete\<close>, \<open>MoveUp\<close>, \<open>MoveDown\<close> and \<open>ToggleVisibility\<close> return the
  out-of-bounds error and the repository as it was: nothing is sent on the events
  channel, nothing is appended to the log or to the undo log, and the root, the items
  and the key index are untouched.
\<close>

theorem out_of_bounds_unchanged:
  assumes "idx < 0 \<or> idx \<ge> int (length (matchListItems0 r))"
  shows "Update cfel aul t line note idx r = (Inl OutOfBounds, r)
       \<and> Delete cfel aul t idx r = (Inl OutOfBounds, r)
       \<and> MoveUp cfel aul t idx r = (Inl OutOfBounds, r)
       \<and> MoveDown cfel aul t idx r = (Inl OutOfBounds, r)
       \<and> ToggleVisibility cfel aul t idx r = (Inl OutOfBounds, r)"
  using assms by (auto simp: Update_def Delete_def MoveUp_def MoveDown_def ToggleVisibility_def)

theorem out_of_bounds_unchanged_witness:
  "int (length (matchListItems0 soleRepo)) \<le> 1
   \<and> Update noOpCall noUndo 9 ''z'' None 1 soleRepo = (Inl OutOfBounds, soleRepo)
   \<and> Delete noOpCall noUndo 9 1 soleRepo = (Inl OutOfBounds, soleRepo)
   \<and> MoveUp noOpCall noUndo 9 1 soleRepo = (Inl OutOfBounds, soleRepo)
   \<and> MoveDown noOpCall noUndo 9 1 soleRepo = (Inl OutOfBounds, soleRepo)
   \<and> ToggleVisibility noOpCall noUndo 9 1 soleRepo = (Inl OutOfBounds, soleRepo)"
proof -
  have h: "(1::int) < 0 \<or> 1 \<ge> int (length (matchListItems0 soleRepo))"
    by (simp add: soleRepo_def)
  from h out_of_bounds_unchanged [OF h, of noOpCall noUndo 9 "''z''" None]
  show ?thesis by simp
qed

text \<open>
  C10. \<open>Add\<close> returns the out-of-bounds error exactly when the index is negative or
  greater than the length of the match list, so it accepts an index equal to the length;
  \<open>Update\<close>, \<open>Delete\<close>, \<open>MoveUp\<close>, \<open>MoveDown\<close> and \<open>ToggleVisibility\<close> return it exactly
  when the index is negative or at least the length.
\<close>

theorem bounds_asymmetric:
  "(fst (Add cfel aul now t line note idx r) = Inl OutOfBounds)
      = (idx < 0 \<or> idx > int (length (matchListItems0 r)))
   \<and> (fst (Update cfel aul t line note idx r) = Inl OutOfBounds)
      = (idx < 0 \<or> idx \<ge> int (length (matchListItems0 r)))
   \<and> (fst (Delete cfel aul t idx r) = Inl OutOfBounds)
      = (idx < 0 \<or> idx \<ge> int (length (matchListItems0 r)))
   \<and> (fst (MoveUp cfel aul t idx r) = Inl OutOfBounds)
      = (idx < 0 \<or> idx \<ge> int (length (matchListItems0 r)))
   \<and> (fst (MoveDown cfel aul t idx r) = Inl OutOfBounds)
      = (idx < 0 \<or> idx \<ge> int (length (matchListItems0 r)))
   \<and> (fst (ToggleVisibility cfel aul t idx r) = Inl OutOfBounds)
      = (idx < 0 \<or> idx \<ge> int (length (matchListItems0 r)))"
  by (auto simp: Add_def Update_def Delete_def MoveUp_def MoveDown_def ToggleVisibility_def
      Let_def split: prod.splits option.splits if_splits)


text \<open>
  With the index equal to the length of a non-empty match list, \<open>Add\<close> emits an Add whose
  target is the last item of the match list: the new item goes to the end.
\<close>

lemma add_at_end:
  assumes "matchListItems0 r \<noteq> []"
  shows "log0 (snd (Add cfel aul now t line note (int (length (matchListItems0 r))) r))
     = log0 r @ [\<lparr>EventType0 = AddEvent, UUID0 = uuid0 r,
          TargetUUID0 = originUUID (heap0 r (last (matchListItems0 r))),
          UnixNanoTime0 = t, ListItemCreationTime0 = now,
          TargetListItemCreationTime0 = creationTime (heap0 r (last (matchListItems0 r))),
          Line0 = line, Note0 = note\<rparr>]"
proof -
  have n: "nat (int (length (matchListItems0 r)) - 1) = length (matchListItems0 r) - 1"
    by simp
  have l: "matchListItems0 r ! (length (matchListItems0 r) - Suc 0) = last (matchListItems0 r)"
    using assms by (simp add: last_conv_nth)
  show ?thesis
    using assms
    by (simp add: Add_def processEventLog0_def addUndoLog_def Let_def n l
        split: prod.splits option.splits)
qed

text \<open>
  \<open>MoveUp\<close> and \<open>MoveDown\<close> on the only item of the match list each put an event into the
  log and onto the events channel, which were empty.
\<close>

theorem move_sole_item_counterexample:
  "matchListItems0 soleRepo = [0] \<and> log0 soleRepo = [] \<and> eventsChan0 soleRepo = []
   \<and> log0 (snd (MoveUp noOpCall noUndo 9 0 soleRepo)) = [moveEvent MoveUpEvent 9 soleItem]
   \<and> eventsChan0 (snd (MoveUp noOpCall noUndo 9 0 soleRepo)) = [moveEvent MoveUpEvent 9 soleItem]
   \<and> log0 (snd (MoveDown noOpCall noUndo 9 0 soleRepo)) = [moveEvent MoveDownEvent 9 soleItem]"
  by (simp add: MoveUp_def MoveDown_def processEventLog0_def addUndoLog_def moveEvent_def
      noOpCall_def noUndo_def soleRepo_def soleItem_def Let_def)

text \<open>
  C6 (amended). When the match list holds exactly one item (which then has no match
  neighbour), \<open>MoveUp\<close> and \<open>MoveDown\<close> on it return no error and emit one Move event with a
  null target: the event is appended to the log and sent on the events channel, and the
  projection afterwards is the one \<open>CallFunctionForEventLog\<close> returns for that event.
\<close>

theorem move_sole_item_emits:
  assumes "matchListItems0 r = [a]"
    and "matchChild0 (heap0 r a) = None" and "matchParent0 (heap0 r a) = None"
  shows "fst (MoveUp cfel aul t 0 r) = Inr ()
       \<and> log0 (snd (MoveUp cfel aul t 0 r)) = log0 r @ [moveEvent MoveUpEvent t (heap0 r a)]
       \<and> eventsChan0 (snd (MoveUp cfel aul t 0 r))
           = eventsChan0 r @ [moveEvent MoveUpEvent t (heap0 r a)]
       \<and> projection0 (snd (MoveUp cfel aul t 0 r))
           = applied cfel (moveEvent MoveUpEvent t (heap0 r a)) r
       \<and> fst (MoveDown cfel aul t 0 r) = Inr ()
       \<and> log0 (snd (MoveDown cfel aul t 0 r)) = log0 r @ [moveEvent MoveDownEvent t (heap0 r a)]
       \<and> eventsChan0 (snd (MoveDown cfel aul t 0 r))
           = eventsChan0 r @ [moveEvent MoveDownEvent t (heap0 r a)]
       \<and> projection0 (snd (MoveDown cfel aul t 0 r))
           = applied cfel (moveEvent MoveDownEvent t (heap0 r a)) r"
  using assms
  by (auto simp: MoveUp_def MoveDown_def processEventLog0_def addUndoLog_def moveEvent_def Let_def
      applied_def projection0_def
      split: prod.splits option.splits)

theorem move_sole_item_emits_witness:
  "matchListItems0 soleRepo = [0] \<and> matchChild0 (heap0 soleRepo 0) = None
   \<and> matchParent0 (heap0 soleRepo 0) = None
   \<and> log0 (snd (MoveUp noOpCall noUndo 9 0 soleRepo))
        = log0 soleRepo @ [moveEvent MoveUpEvent 9 (heap0 soleRepo 0)]
   \<and> log0 (snd (MoveDown noOpCall noUndo 9 0 soleRepo))
        = log0 soleRepo @ [moveEvent MoveDownEvent 9 (heap0 soleRepo 0)]"
proof -
  have a: "matchListItems0 soleRepo = [0]" by (simp add: soleRepo_def)
  have b: "matchChild0 (heap0 soleRepo 0) = None" by (simp add: soleRepo_def soleItem_def)
  have c: "matchParent0 (heap0 soleRepo 0) = None" by (simp add: soleRepo_def soleItem_def)
  from a b c move_sole_item_emits [OF a b c, of noOpCall noUndo 9] show ?thesis by simp
qed

section \<open>The blob codec\<close>

subsection \<open>Integers, strings and slices are read back\<close>

lemma fromBigEndian_snoc: "fromBigEndian (bs @ [b]) = fromBigEndian bs * 256 + unat b"
  by (simp add: fromBigEndian_def)

lemma fromBigEndian_bigEndian: "fromBigEndian (bigEndian n) = n"
proof (induction n rule: bigEndian.induct)
  case (1 n)
  show ?case
  proof (cases "n = 0")
    case True
    then show ?thesis by (simp add: bigEndian.simps fromBigEndian_def)
  next
    case False
    have "unat (of_nat (n mod 256) :: 8 word) = n mod 256"
      by (simp add: unat_of_nat)
    with False 1 show ?thesis
      by (subst bigEndian.simps) (simp add: fromBigEndian_snoc)
  qed
qed

lemma length_bigEndian: "n < 256 ^ k \<Longrightarrow> length (bigEndian n) \<le> k"
proof (induction k arbitrary: n)
  case 0
  then show ?case by (simp add: bigEndian.simps)
next
  case (Suc k)
  show ?case
  proof (cases "n = 0")
    case True
    then show ?thesis by (simp add: bigEndian.simps)
  next
    case False
    from Suc.prems have "n div 256 < 256 ^ k"
      by (simp add: less_mult_imp_div_less mult.commute)
    then have "length (bigEndian (n div 256)) \<le> k" by (rule Suc.IH)
    with False show ?thesis by (subst bigEndian.simps) simp
  qed
qed

lemma bigEndian_nonempty: "0 < n \<Longrightarrow> bigEndian n \<noteq> []"
  by (subst bigEndian.simps) simp

lemma decodeUint_encodeUint:
  assumes "n < 2 ^ 64"
  shows "decodeUint (encodeUint n @ rest) = Some (n, rest)"
proof (cases "n < 128")
  case True
  then have "unat (of_nat n :: 8 word) = n" by (simp add: unat_of_nat)
  with True show ?thesis by (simp add: encodeUint_def decodeUint_def)
next
  case False
  define k where "k = length (bigEndian n)"
  have "n < 256 ^ 8" using assms by simp
  then have k8: "k \<le> 8" unfolding k_def by (rule length_bigEndian)
  have k0: "0 < k" unfolding k_def using False bigEndian_nonempty [of n] by simp
  have u: "unat (of_nat (256 - k) :: 8 word) = 256 - k"
    using k0 by (simp add: unat_of_nat)
  have t: "take k (bigEndian n @ rest) = bigEndian n" "drop k (bigEndian n @ rest) = rest"
    by (simp_all add: k_def)
  from False u k8 k0 t show ?thesis
    by (simp add: encodeUint_def decodeUint_def k_def [symmetric] Let_def fromBigEndian_bigEndian)
qed

lemma encodeUint_nonempty: "encodeUint n \<noteq> []"
  by (simp add: encodeUint_def)

lemma length_encodeUint:
  assumes "n < 2 ^ 64"
  shows "length (encodeUint n) \<le> 9"
proof -
  have "n < 256 ^ 8" using assms by simp
  then have "length (bigEndian n) \<le> 8" by (rule length_bigEndian)
  then show ?thesis by (simp add: encodeUint_def)
qed

lemma decodeInt_encodeInt:
  assumes "goInt i"
  shows "decodeInt (encodeInt i @ rest) = Some (i, rest)"
proof (cases "i < 0")
  case True
  have "2 * nat (- i - 1) + 1 < (2 :: nat) ^ 64" using assms True by (simp add: goInt_def)
  then show ?thesis using True
    by (simp add: encodeInt_def decodeInt_def decodeUint_encodeUint)
next
  case False
  have "2 * nat i < (2 :: nat) ^ 64" using assms False by (simp add: goInt_def)
  then show ?thesis using False
    by (simp add: encodeInt_def decodeInt_def decodeUint_encodeUint)
qed

lemma decodeBytes_encodeBytes:
  "goLength bs \<Longrightarrow> decodeBytes (encodeBytes bs @ rest) = Some (bs, rest)"
  by (simp add: encodeBytes_def decodeBytes_def decodeUint_encodeUint goLength_def)

lemma bytesString_stringBytes: "bytesString (stringBytes s) = s"
  by (induction s) (simp_all add: bytesString_def stringBytes_def unat_of_nat)

lemma length_stringBytes: "length (stringBytes s) = length s"
  by (simp add: stringBytes_def)

lemma decodeString_encodeString:
  "goLength s \<Longrightarrow> decodeString (encodeString s @ rest) = Some (s, rest)"
  by (simp add: encodeString_def decodeString_def decodeBytes_encodeBytes goLength_def
      length_stringBytes bytesString_stringBytes)

lemma decodeElements_concat:
  assumes "\<forall>x \<in> set xs. \<forall>rest. dec (enc x @ rest) = Some (g x, rest)"
  shows "decodeElements (length xs) dec (concat (map enc xs) @ rest) = Some (map g xs, rest)"
  using assms by (induction xs) simp_all

lemma decodeSlice_encodeSlice:
  assumes "goLength xs" and "\<forall>x \<in> set xs. \<forall>rest. dec (enc x @ rest) = Some (g x, rest)"
  shows "decodeSlice dec (encodeSlice enc xs @ rest) = Some (map g xs, rest)"
  using assms
  by (simp add: encodeSlice_def decodeSlice_def decodeUint_encodeUint goLength_def
      decodeElements_concat)

text \<open>
  The definitions of the codec, for the evaluation of a concrete blob.
\<close>

lemmas codec_simps = encodeUint_def decodeUint_def encodeInt_def decodeInt_def encodeBytes_def
  decodeBytes_def stringBytes_def bytesString_def encodeString_def decodeString_def
  encodeSlice_def decodeSlice_def unlessZero_def friendsFields_def encodeFriends_def
  decodeFriendsField_def decodeFriends_def eventTypeNumber_def eventTypeOf_def noteLength_def
  noteBytes_def zeroValuedFriends_def eventFields_def encodeEvent_def decodeEventField_def
  decodeEvent_def valueMessage_def gobEncode_def decodeValue_def gobDecode_def
  latestWalSchemaID_def littleEndian16_def buildByteWal_def buildFromFile_def
  bigEndian.simps fromBigEndian_def Let_def char_of_def bit_Suc_0_iff

text \<open>
  The example of the documentation of \<open>encoding/gob\<close>: the message for the value
  \<open>Point{22, 33}\<close> of a struct of two \<open>int\<close> with the type id 65 is
  \<open>07 ff 82 01 2c 01 42 00\<close>.
\<close>

lemma gob_point_example:
  "encodeUint 7 @ encodeInt 65 @
     encodeStruct (- 1) [(0, Some (encodeInt 22)), (1, Some (encodeInt 33))] =
   [0x07, 0xff, 0x82, 0x01, 0x2c, 0x01, 0x42, 0x00]"
  by (simp add: codec_simps)

subsection \<open>Structs are read back\<close>

lemma length_encodeStruct: "0 < length (encodeStruct fieldnum fs)"
  by (induction fieldnum fs rule: encodeStruct.induct) simp_all

lemma unlessZero_eq_None: "(unlessZero z v = None) = z"
  by (simp add: unlessZero_def)

lemma unlessZero_eq_Some: "(unlessZero z v = Some w) = (\<not> z \<and> w = v)"
  by (auto simp: unlessZero_def)

text \<open>
  The loop of the receiver on what \<open>encodeStruct\<close> sends: it applies the update \<open>upd n\<close> of
  every field \<open>n\<close> that was sent, in the order of the fields, and the fuel is enough.
\<close>

lemma decodeStruct_encodeStruct:
  assumes "\<forall>(n, ov) \<in> set fs. \<forall>v. ov = Some v \<longrightarrow>
             (\<forall>r rest. decodeField n (v @ rest) r = Some (upd n r, rest))"
    and "sorted_wrt (<) (map fst fs)"
    and "\<forall>n \<in> set (map fst fs). fieldnum < int n \<and> n < 100"
    and "- 1 \<le> fieldnum"
    and "length (encodeStruct fieldnum fs) \<le> fuel"
  shows "decodeStruct fuel decodeField fieldnum r (encodeStruct fieldnum fs @ rest) =
         Some (foldl (\<lambda>r (n, ov). if ov = None then r else upd n r) r fs, rest)"
  using assms
proof (induction fs arbitrary: fieldnum fuel r)
  case Nil
  then obtain k where "fuel = Suc k" by (cases fuel) auto
  then show ?case by (simp add: decodeUint_def)
next
  case (Cons a fs)
  obtain n ov where a: "a = (n, ov)" by (cases a)
  show ?case
  proof (cases ov)
    case None
    have "decodeStruct fuel decodeField fieldnum r (encodeStruct fieldnum fs @ rest) =
          Some (foldl (\<lambda>r (n, ov). if ov = None then r else upd n r) r fs, rest)"
      using Cons.prems by (intro Cons.IH) (auto simp: a None)
    then show ?thesis by (simp add: a None)
  next
    case (Some v)
    let ?d = "nat (int n - fieldnum)"
    have n: "fieldnum < int n" "n < 100" using Cons.prems(3) by (auto simp: a)
    have d: "0 < ?d" "?d < 2 ^ 64" "nat (fieldnum + int ?d) = n" "fieldnum + int ?d = int n"
      using n Cons.prems(4) by auto
    have len: "length (encodeUint ?d) + length v + length (encodeStruct (int n) fs) \<le> fuel"
      using Cons.prems(5) by (simp add: a Some)
    have "0 < length (encodeUint ?d)" using encodeUint_nonempty [of ?d] by simp
    with len obtain k where k: "fuel = Suc k" "length (encodeStruct (int n) fs) \<le> k"
      by (cases fuel) auto
    have f: "decodeField n (v @ encodeStruct (int n) fs @ rest) r =
             Some (upd n r, encodeStruct (int n) fs @ rest)"
      using Cons.prems(1) by (auto simp: a Some)
    have ih: "decodeStruct k decodeField (int n) (upd n r) (encodeStruct (int n) fs @ rest) =
          Some (foldl (\<lambda>r (n, ov). if ov = None then r else upd n r) (upd n r) fs, rest)"
      using Cons.prems(1,2,3) k(2) by (intro Cons.IH) (auto simp: a)
    show ?thesis
      using d f ih by (simp add: a Some k(1) decodeUint_encodeUint)
  qed
qed

text \<open>
  The friends that are sent are stored into the friends that the receiver holds: a field that
  was left out keeps the value it has there.
\<close>

lemma decodeFriends_encodeFriends:
  assumes "goFriends f"
  shows "decodeFriends f0 (encodeFriends f @ rest) =
         Some (f0\<lparr>IsProcessed := (IsProcessed f \<or> IsProcessed f0),
                  Offset := (if Offset f = 0 then Offset f0 else Offset f),
                  Emails := (if Emails f = [] then Emails f0 else Emails f)\<rparr>, rest)"
proof -
  let ?upd = "\<lambda>n r. if n = 0 then r\<lparr>IsProcessed := True\<rparr>
                 else if n = 1 then r\<lparr>Offset := Offset f\<rparr> else r\<lparr>Emails := Emails f\<rparr>"
  have s: "\<forall>x \<in> set (Emails f). \<forall>rest. decodeString (encodeString x @ rest) = Some (x, rest)"
    using assms by (simp add: goFriends_def decodeString_encodeString)
  have e: "\<And>rest. decodeSlice decodeString (encodeSlice encodeString (Emails f) @ rest) =
           Some (Emails f, rest)"
    using decodeSlice_encodeSlice [of "Emails f" decodeString encodeString "\<lambda>x. x"] s assms
    by (simp add: goFriends_def)
  have o: "\<And>rest. decodeInt (encodeInt (Offset f) @ rest) = Some (Offset f, rest)"
    using assms by (simp add: goFriends_def decodeInt_encodeInt)
  have u: "\<And>rest. decodeUint (encodeUint (Suc 0) @ rest) = Some (Suc 0, rest)"
    by (simp add: decodeUint_encodeUint)
  have "decodeStruct (Suc (length (encodeFriends f @ rest))) decodeFriendsField (- 1) f0
          (encodeStruct (- 1) (friendsFields f) @ rest) =
        Some (foldl (\<lambda>r (n, ov). if ov = None then r else ?upd n r) f0 (friendsFields f), rest)"
  proof (rule decodeStruct_encodeStruct)
    show "\<forall>(n, ov) \<in> set (friendsFields f). \<forall>v. ov = Some v \<longrightarrow>
            (\<forall>r rest. decodeFriendsField n (v @ rest) r = Some (?upd n r, rest))"
      by (auto simp: friendsFields_def unlessZero_def decodeFriendsField_def e o u
          split: if_splits)
    show "sorted_wrt (<) (map fst (friendsFields f))" by (simp add: friendsFields_def)
    show "\<forall>n \<in> set (map fst (friendsFields f)). - 1 < int n \<and> n < 100"
      by (simp add: friendsFields_def)
    show "- 1 \<le> (- 1 :: int)" by simp
    show "length (encodeStruct (- 1) (friendsFields f)) \<le> Suc (length (encodeFriends f @ rest))"
      by (simp add: encodeFriends_def)
  qed
  then show ?thesis
    by (simp add: decodeFriends_def encodeFriends_def friendsFields_def unlessZero_def)
qed

lemma eventTypeOf_eventTypeNumber: "eventTypeOf (eventTypeNumber t) = Some t"
  by (cases t) (simp_all add: eventTypeOf_def eventTypeNumber_def)

lemma eventTypeNumber_less: "eventTypeNumber t < 8"
  by (cases t) (simp_all add: eventTypeNumber_def)

lemma goInt_sint: "goInt (sint (w :: 64 word))"
  using sint_ge [of w] sint_lt [of w] by (simp add: goInt_def)

text \<open>
  An event is read back as \<open>persisted\<close> has it: the fields that were left out have the zero
  value they had in the event, but for the \<open>Note\<close>, which is \<open>nil\<close> also when the note of
  the event was empty.
\<close>

lemma decodeEvent_encodeEvent:
  assumes "goEvent e"
  shows "decodeEvent (encodeEvent e @ rest) = Some (persisted e, rest)"
proof -
  define upd :: "nat \<Rightarrow> EventLog \<Rightarrow> EventLog" where
    "upd = (\<lambda>n r. if n = 0 then r\<lparr>UUID := UUID e\<rparr>
       else if n = 1 then r\<lparr>LamportTimestamp := LamportTimestamp e\<rparr>
       else if n = 2 then r\<lparr>EventType := EventType e\<rparr>
       else if n = 3 then r\<lparr>ListItemKey := ListItemKey e\<rparr>
       else if n = 4 then r\<lparr>TargetListItemKey := TargetListItemKey e\<rparr>
       else if n = 5 then r\<lparr>Line := Line e\<rparr>
       else if n = 6 then r\<lparr>Note := Some (noteBytes (Note e))\<rparr>
       else r\<lparr>Friends := (Friends r)\<lparr>
              IsProcessed := (IsProcessed (Friends e) \<or> IsProcessed (Friends r)),
              Offset := (if Offset (Friends e) = 0 then Offset (Friends r)
                         else Offset (Friends e)),
              Emails := (if Emails (Friends e) = [] then Emails (Friends r)
                         else Emails (Friends e))\<rparr>\<rparr>)"
  define step :: "EventLog \<Rightarrow> nat \<times> bytes option \<Rightarrow> EventLog" where
    "step = (\<lambda>r p. if snd p = None then r else upd (fst p) r)"
  have g: "goLength (ListItemKey e)" "goLength (TargetListItemKey e)" "goLength (Line e)"
    "goLength (noteBytes (Note e))" "goFriends (Friends e)"
    using assms by (simp_all add: goEvent_def)
  have f0: "\<And>rest. decodeUint (encodeUint (unat (UUID e)) @ rest) = Some (unat (UUID e), rest)"
  proof -
    have "unat (UUID e) < 2 ^ 32" using unsigned_less [of "UUID e", where ?'a = nat] by simp
    then have "unat (UUID e) < 2 ^ 64" by simp
    then show "\<And>rest. decodeUint (encodeUint (unat (UUID e)) @ rest) = Some (unat (UUID e), rest)"
      by (rule decodeUint_encodeUint)
  qed
  have f1: "\<And>rest. decodeInt (encodeInt (sint (LamportTimestamp e)) @ rest) =
              Some (sint (LamportTimestamp e), rest)"
    by (rule decodeInt_encodeInt) (rule goInt_sint)
  have f2: "\<And>rest. decodeUint (encodeUint (eventTypeNumber (EventType e)) @ rest) =
              Some (eventTypeNumber (EventType e), rest)"
    using eventTypeNumber_less [of "EventType e"] by (intro decodeUint_encodeUint) simp
  note sent = f0 f1 f2 eventTypeOf_eventTypeNumber decodeString_encodeString [OF g(1)]
    decodeString_encodeString [OF g(2)] decodeString_encodeString [OF g(3)]
    decodeBytes_encodeBytes [OF g(4)] decodeFriends_encodeFriends [OF g(5)]
  have "decodeStruct (Suc (length (encodeEvent e @ rest))) decodeEventField (- 1) zeroEvent
          (encodeStruct (- 1) (eventFields e) @ rest) =
        Some (foldl (\<lambda>r (n, ov). if ov = None then r else upd n r) zeroEvent (eventFields e),
              rest)"
  proof (rule decodeStruct_encodeStruct)
    show "\<forall>(n, ov) \<in> set (eventFields e). \<forall>v. ov = Some v \<longrightarrow>
            (\<forall>r rest. decodeEventField n (v @ rest) r = Some (upd n r, rest))"
      by (simp add: eventFields_def unlessZero_eq_Some decodeEventField_def sent upd_def)
    show "sorted_wrt (<) (map fst (eventFields e))" by (simp add: eventFields_def)
    show "\<forall>n \<in> set (map fst (eventFields e)). - 1 < int n \<and> n < 100"
      by (simp add: eventFields_def)
    show "- 1 \<le> (- 1 :: int)" by simp
    show "length (encodeStruct (- 1) (eventFields e)) \<le> Suc (length (encodeEvent e @ rest))"
      by (simp add: encodeEvent_def)
  qed
  moreover have "(\<lambda>r (n, ov). if ov = None then r else upd n r) = step"
    by (simp add: step_def fun_eq_iff)
  moreover have "foldl step zeroEvent (eventFields e) = persisted e"
  proof -
    have st: "\<And>r n ov. step r (n, ov) = (if ov = None then r else upd n r)"
      by (simp add: step_def)
    have z: "UUID zeroEvent = 0" "LamportTimestamp zeroEvent = 0" "EventType zeroEvent = NullEvent"
      "ListItemKey zeroEvent = []" "TargetListItemKey zeroEvent = []" "Line zeroEvent = []"
      "Note zeroEvent = None" "Friends zeroEvent = zeroFriends" "cachedKey zeroEvent = []"
      by (simp_all add: zeroEvent_def)
    have c0: "\<And>r. UUID r = 0 \<Longrightarrow> (if UUID e = 0 then r else upd 0 r) = r\<lparr>UUID := UUID e\<rparr>"
      by (simp add: upd_def)
    have c1: "\<And>r. LamportTimestamp r = 0 \<Longrightarrow>
        (if LamportTimestamp e = 0 then r else upd (Suc 0) r) =
        r\<lparr>LamportTimestamp := LamportTimestamp e\<rparr>"
      by (simp add: upd_def)
    have c2: "\<And>r. EventType r = NullEvent \<Longrightarrow>
        (if EventType e = NullEvent then r else upd 2 r) = r\<lparr>EventType := EventType e\<rparr>"
      by (simp add: upd_def)
    have c3: "\<And>r. ListItemKey r = [] \<Longrightarrow>
        (if ListItemKey e = [] then r else upd 3 r) = r\<lparr>ListItemKey := ListItemKey e\<rparr>"
      by (simp add: upd_def)
    have c4: "\<And>r. TargetListItemKey r = [] \<Longrightarrow>
        (if TargetListItemKey e = [] then r else upd 4 r) =
        r\<lparr>TargetListItemKey := TargetListItemKey e\<rparr>"
      by (simp add: upd_def)
    have c5: "\<And>r. Line r = [] \<Longrightarrow>
        (if Line e = [] then r else upd 5 r) = r\<lparr>Line := Line e\<rparr>"
      by (simp add: upd_def)
    have c6: "\<And>r. Note r = None \<Longrightarrow>
        (if noteLength (Note e) = 0 then r else upd 6 r) =
        r\<lparr>Note := (if Note e = Some [] then None else Note e)\<rparr>"
      by (cases "Note e") (simp_all add: upd_def noteLength_def noteBytes_def)
    have c7: "\<And>r. Friends r = zeroFriends \<Longrightarrow>
        (if zeroValuedFriends (Friends e) then r else upd 7 r) = r\<lparr>Friends := Friends e\<rparr>"
      by (cases "Friends e") (auto simp: upd_def zeroValuedFriends_def zeroFriends_def)
    have "foldl step zeroEvent (eventFields e) =
          zeroEvent\<lparr>UUID := UUID e, LamportTimestamp := LamportTimestamp e,
            EventType := EventType e, ListItemKey := ListItemKey e,
            TargetListItemKey := TargetListItemKey e, Line := Line e,
            Note := (if Note e = Some [] then None else Note e), Friends := Friends e\<rparr>"
      by (simp add: eventFields_def st unlessZero_eq_None z c0 c1 c2 c3 c4 c5 c6 c7)
    also have "\<dots> = persisted e"
      by (rule EventLog.equality) (simp_all add: persisted_def z)
    finally show ?thesis .
  qed
  ultimately show ?thesis by (simp add: decodeEvent_def encodeEvent_def)
qed

subsection \<open>The stream is read back\<close>

lemma decodeValue_valueMessage:
  assumes "goLog T el"
  shows "decodeValue T (valueMessage T el) = Some (map persisted el)"
proof -
  have i: "goInt (int (typeId T))" using assms by (simp add: goLog_def goInt_def)
  have "\<forall>e \<in> set el. \<forall>rest. decodeEvent (encodeEvent e @ rest) = Some (persisted e, rest)"
    using assms by (simp add: goLog_def decodeEvent_encodeEvent)
  moreover have "goLength el" using assms by (simp add: goLog_def)
  ultimately have "decodeSlice decodeEvent (encodeSlice encodeEvent el @ []) =
      Some (map persisted el, [])"
    by (intro decodeSlice_encodeSlice)
  then show ?thesis
    by (simp add: decodeValue_def valueMessage_def decodeInt_encodeInt [OF i])
qed

lemma gobDecode_gobEncode:
  assumes "goLog T el"
  shows "gobDecode T (gobEncode T el) = Some (map persisted el)"
proof -
  have "length (valueMessage T el) < 2 ^ 64" using assms by (simp add: goLog_def goLength_def)
  then have "decodeUint (encodeUint (length (valueMessage T el)) @ valueMessage T el) =
      Some (length (valueMessage T el), valueMessage T el)"
    by (rule decodeUint_encodeUint)
  then show ?thesis
    by (simp add: gobDecode_def gobEncode_def decodeValue_valueMessage [OF assms])
qed

lemma littleEndian16_latest: "littleEndian16 latestWalSchemaID = [6, 0]"
  by (simp add: littleEndian16_def latestWalSchemaID_def)

subsection \<open>An empty note does not come back\<close>

text \<open>
  The blob of the log that holds the one event \<open>emptyNoteEvent\<close>, whose note is empty and not
  \<open>nil\<close>, and what \<open>buildFromFile\<close> reads from it.
\<close>

lemma emptyNote_blob:
  "buildByteWal storing someTypes [emptyNoteEvent] =
     [6, 0, 16, 255, 130, 0, 1, 1, 1, 1, 4, 1, 2, 1, 3, 49, 58, 49, 0]"
  by (simp add: codec_simps emptyNoteEvent_def zeroEvent_def zeroFriends_def storing_def
      someTypes_def)

lemma emptyNote_loaded:
  "buildFromFile storing someTypes
     [6, 0, 16, 255, 130, 0, 1, 1, 1, 1, 4, 1, 2, 1, 3, 49, 58, 49, 0] =
   Loaded [emptyNoteEvent\<lparr>Note := None\<rparr>]"
  by (simp add: codec_simps emptyNoteEvent_def zeroEvent_def zeroFriends_def storing_def
      someTypes_def)

text \<open>
  Encoding the log of the one event \<open>emptyNoteEvent\<close>, an Update that sets a note to the
  empty note \<open>[]byte{}\<close>, and decoding the blob gives a log whose event has the note \<open>nil\<close>:
  the log that comes back is not the one that went in, on the persisted field \<open>Note\<close>.
\<close>

theorem empty_note_counterexample:
  "buildFromFile storing someTypes (buildByteWal storing someTypes [emptyNoteEvent]) =
     Loaded [emptyNoteEvent\<lparr>Note := None\<rparr>] \<and>
   buildFromFile storing someTypes (buildByteWal storing someTypes [emptyNoteEvent]) \<noteq>
     Loaded [emptyNoteEvent] \<and>
   Note emptyNoteEvent = Some []"
  by (simp add: emptyNote_blob emptyNote_loaded) (simp add: emptyNoteEvent_def zeroEvent_def)

text \<open>
  The same for every gzip whose reader returns what its writer was given, and for every
  definition of the types.
\<close>

lemma empty_note_is_lost:
  assumes "readsBack Z" and "typeId T < 2 ^ 31"
  shows "buildFromFile Z T (buildByteWal Z T [emptyNoteEvent]) =
         Loaded [emptyNoteEvent\<lparr>Note := None\<rparr>]"
proof -
  have s: "length (encodeSlice encodeEvent [emptyNoteEvent]) = 13"
    by (simp add: codec_simps emptyNoteEvent_def zeroEvent_def zeroFriends_def)
  have "2 * typeId T < 2 ^ 64" using assms(2) by simp
  then have "length (encodeInt (int (typeId T))) \<le> 9"
    by (simp add: encodeInt_def length_encodeUint)
  with s have m: "goLength (valueMessage T [emptyNoteEvent])"
    by (simp add: valueMessage_def goLength_def)
  have e: "goEvent emptyNoteEvent"
    by (simp add: goEvent_def goFriends_def goLength_def goInt_def noteBytes_def
        emptyNoteEvent_def zeroEvent_def zeroFriends_def)
  have g: "goLog T [emptyNoteEvent]"
    using assms(2) m e by (simp add: goLog_def goLength_def)
  have p: "persisted emptyNoteEvent = emptyNoteEvent\<lparr>Note := None\<rparr>"
    by (simp add: persisted_def emptyNoteEvent_def zeroEvent_def)
  show ?thesis
    using assms(1)
    by (simp add: buildFromFile_def buildByteWal_def littleEndian16_latest readsBack_def
        gobDecode_gobEncode [OF g] p)
qed

subsection \<open>The round trip of a log\<close>

lemma sharedLog_sized: "goLog someTypes [sharedEvent, zeroEvent]"
  by (simp add: goLog_def goEvent_def goFriends_def goLength_def goInt_def codec_simps
      sharedEvent_def zeroEvent_def zeroFriends_def someTypes_def)

text \<open>
  C8 (amended). For every event log of values of a Go program, and every gzip whose reader
  returns what its writer was given, decoding the blob that \<open>buildByteWal\<close> makes of the log
  (the schema id 6 in two little-endian bytes, then the gzip of the gob encoding) returns the
  log with every event as it was on its exported fields, except that a note that was empty and
  not \<open>nil\<close> is \<open>nil\<close>; the field \<open>cachedKey\<close>, which is not exported, is empty.
\<close>

theorem blob_round_trip:
  assumes "readsBack Z" and "goLog T el"
  shows "buildFromFile Z T (buildByteWal Z T el) = Loaded (map persisted el)"
  using assms(1)
  by (simp add: buildFromFile_def buildByteWal_def littleEndian16_latest readsBack_def
      gobDecode_gobEncode [OF assms(2)])

theorem blob_round_trip_witness:
  "readsBack storing \<and> goLog someTypes [sharedEvent, zeroEvent] \<and>
   buildFromFile storing someTypes (buildByteWal storing someTypes [sharedEvent, zeroEvent]) =
     Loaded [sharedEvent\<lparr>cachedKey := []\<rparr>, zeroEvent]"
proof -
  have r: "readsBack storing" by (simp add: readsBack_def storing_def)
  have p: "map persisted [sharedEvent, zeroEvent] = [sharedEvent\<lparr>cachedKey := []\<rparr>, zeroEvent]"
    by (simp add: persisted_def sharedEvent_def zeroEvent_def)
  show ?thesis
    using blob_round_trip [OF r sharedLog_sized] r sharedLog_sized by (simp only: p simp_thms)
qed

end
